theory Spec2Isabelle
  imports Complex_Main
begin

text \<open>
  A shallow embedding of the odds scripts of the repository: the odds converter
  (\<open>probToAmericanOdds\<close>, \<open>kalshiPriceToAmericanOdds\<close>), the adapters that turn a
  response of Polymarket or Kalshi into quotes, and the category updates that write
  the odds of matching quotes into the stored nominee lists.

  The scripts exist in several versions, which are modelled side by side:
  \<^item> update-polymarket.js, first script (the first script of part_000 is the same code):
    \<open>fetchPolymarketData\<close>, \<open>updateCategory\<close>;
  \<^item> update-polymarket.js, second script: \<open>fetchCategory\<close>;
  \<^item> part_000, second script: \<open>fetchPolymarketData\<close>, here \<open>fetchPolymarketData_json\<close>;
  \<^item> part_001: \<open>fetchAllOscarsMarkets\<close>, \<open>extractNominees\<close>, \<open>updateCategory\<close>,
    here \<open>updateCategory_bulk\<close>;
  \<^item> update-kalshi-bafta.js: \<open>fetchKalshiData\<close>, \<open>updateCategory\<close>, here
    \<open>updateCategory_kalshi\<close>.

  What the network answers is an argument of the model (a function from the request to
  its outcome), the database is a state that is passed and returned, an exception is a
  value \<open>Inl e\<close>, and the date \<open>new Date()\<close> gives is the argument \<open>today\<close>.
  What the scripts print is not modelled.
\<close>

section \<open>JavaScript numbers\<close>

text \<open>
  The scripts compute odds with JavaScript numbers, which are IEEE 754 doubles. A
  number is modelled as a finite rational (the exact value of the double), one of the
  two infinities, or NaN. Every arithmetic operation computes the exact result and
  rounds it to the nearest double, a tie going to the even significand, as the
  hardware does; a division by zero is a value of the model, as it is in JavaScript.
  The negative zero is not modelled: a zero is the positive zero, which is what
  \<open>1 - 1\<close> and \<open>0 / 100\<close> evaluate to, and what \<open>parseFloat\<close> makes of a
  number that is the negative zero (it is printed as \<open>0\<close>); only a Kalshi price
  that is itself the negative zero would behave differently.
\<close>

datatype jsnum = Fin rat | PosInf | NegInf | NaN

fun js_neg :: "jsnum \<Rightarrow> jsnum" where
  "js_neg (Fin a) = Fin (- a)"
| "js_neg PosInf = NegInf"
| "js_neg NegInf = PosInf"
| "js_neg NaN = NaN"

subsection \<open>Rounding to a double\<close>

text \<open>
  \<open>base\<close> to an integer power that may be negative, from the power of integers.
\<close>

definition int_power :: "int \<Rightarrow> int \<Rightarrow> rat" where
  "int_power base e =
     (if 0 \<le> e then of_int (base ^ nat e) else 1 / of_int (base ^ nat (- e)))"

text \<open>The number of binary digits of a positive integer.\<close>

function bitlen :: "int \<Rightarrow> int" where
  "bitlen n = (if n \<le> 0 then 0 else 1 + bitlen (n div 2))"
  by pat_completeness auto
termination
  by (relation "measure nat") auto

declare bitlen.simps [simp del]

text \<open>
  \<open>ilog2 x\<close> is the integer \<open>E\<close> with \<open>2^E \<le> x < 2^(E+1)\<close>, for a positive
  \<open>x\<close>: from the bit length of \<open>\<lfloor>x\<rfloor>\<close> when \<open>x\<close> is at least 1, and from that
  of \<open>\<lceil>1/x\<rceil> - 1\<close> below 1.
\<close>

definition ilog2 :: "rat \<Rightarrow> int" where
  "ilog2 x = (if 1 \<le> x then bitlen \<lfloor>x\<rfloor> - 1 else - bitlen (\<lceil>1 / x\<rceil> - 1))"

text \<open>Rounding to the nearest integer, a tie going to the even one.\<close>

definition round_half_even :: "rat \<Rightarrow> int" where
  "round_half_even y =
     (let f = \<lfloor>y\<rfloor>; half = of_int f + 1 / 2
      in if y < half then f
         else if half < y then f + 1
         else if even f then f else f + 1)"

text \<open>
  The double nearest to a positive rational. The significand has 53 bits, so the unit
  in the last place is \<open>2^(E - 52)\<close>, and not less than \<open>2^(-1074)\<close> (the subnormal
  numbers). A result of \<open>2^1024\<close> or more is the infinity.
\<close>

definition double_of_pos :: "rat \<Rightarrow> jsnum" where
  "double_of_pos x =
     (let e = max (ilog2 x - 52) (- 1074);
          m = round_half_even (x / int_power 2 e)
      in if 971 < e \<or> (e = 971 \<and> m = 2 ^ 53) then PosInf
         else Fin (of_int m * int_power 2 e))"

definition to_double :: "rat \<Rightarrow> jsnum" where
  "to_double x =
     (if x = 0 then Fin 0
      else if 0 < x then double_of_pos x
      else js_neg (double_of_pos (- x)))"

subsection \<open>Arithmetic and comparison\<close>

fun js_sub :: "jsnum \<Rightarrow> jsnum \<Rightarrow> jsnum" where
  "js_sub (Fin a) (Fin b) = to_double (a - b)"
| "js_sub NaN _ = NaN"
| "js_sub _ NaN = NaN"
| "js_sub PosInf PosInf = NaN"
| "js_sub NegInf NegInf = NaN"
| "js_sub PosInf _ = PosInf"
| "js_sub NegInf _ = NegInf"
| "js_sub (Fin a) PosInf = NegInf"
| "js_sub (Fin a) NegInf = PosInf"

fun js_mul :: "jsnum \<Rightarrow> jsnum \<Rightarrow> jsnum" where
  "js_mul (Fin a) (Fin b) = to_double (a * b)"
| "js_mul NaN _ = NaN"
| "js_mul _ NaN = NaN"
| "js_mul PosInf (Fin b) = (if b = 0 then NaN else if 0 < b then PosInf else NegInf)"
| "js_mul NegInf (Fin b) = (if b = 0 then NaN else if 0 < b then NegInf else PosInf)"
| "js_mul (Fin a) PosInf = (if a = 0 then NaN else if 0 < a then PosInf else NegInf)"
| "js_mul (Fin a) NegInf = (if a = 0 then NaN else if 0 < a then NegInf else PosInf)"
| "js_mul PosInf PosInf = PosInf"
| "js_mul NegInf NegInf = PosInf"
| "js_mul PosInf NegInf = NegInf"
| "js_mul NegInf PosInf = NegInf"

text \<open>
  Division: a finite numerator over a zero denominator is an infinity with the sign of
  the numerator, and \<open>0 / 0\<close> is NaN.
\<close>

fun js_div :: "jsnum \<Rightarrow> jsnum \<Rightarrow> jsnum" where
  "js_div (Fin a) (Fin b) =
     (if b \<noteq> 0 then to_double (a / b)
      else if 0 < a then PosInf else if a < 0 then NegInf else NaN)"
| "js_div NaN _ = NaN"
| "js_div _ NaN = NaN"
| "js_div (Fin a) PosInf = Fin 0"
| "js_div (Fin a) NegInf = Fin 0"
| "js_div PosInf (Fin b) = (if 0 \<le> b then PosInf else NegInf)"
| "js_div NegInf (Fin b) = (if 0 \<le> b then NegInf else PosInf)"
| "js_div PosInf PosInf = NaN"
| "js_div PosInf NegInf = NaN"
| "js_div NegInf PosInf = NaN"
| "js_div NegInf NegInf = NaN"

text \<open>The comparison \<open>a >= b\<close>: false as soon as one side is NaN.\<close>

fun js_ge :: "jsnum \<Rightarrow> jsnum \<Rightarrow> bool" where
  "js_ge (Fin a) (Fin b) = (b \<le> a)"
| "js_ge NaN _ = False"
| "js_ge _ NaN = False"
| "js_ge PosInf _ = True"
| "js_ge _ NegInf = True"
| "js_ge NegInf _ = False"
| "js_ge _ PosInf = False"

text \<open>
  \<open>Math.round\<close> gives the nearest integer, a tie going up (towards
  \<open>+\<infinity>\<close>): \<open>Math.round(2.5) = 3\<close>, \<open>Math.round(-2.5) = -2\<close>. The result
  is exact: below \<open>2^52\<close> in magnitude the integer is a double, and from there on
  every double is an integer already. The infinities and NaN are returned unchanged.
\<close>

fun Math_round :: "jsnum \<Rightarrow> jsnum" where
  "Math_round (Fin a) = Fin (of_int \<lfloor>a + 1 / 2\<rfloor>)"
| "Math_round PosInf = PosInf"
| "Math_round NegInf = NegInf"
| "Math_round NaN = NaN"

section \<open>The text of a number\<close>

text \<open>The decimal digits of an integer that is not negative.\<close>

definition digit_char :: "int \<Rightarrow> char" where
  "digit_char d = ''0123456789'' ! nat d"

function show_digits :: "int \<Rightarrow> string" where
  "show_digits n =
     (if n < 10 then [digit_char n] else show_digits (n div 10) @ [digit_char (n mod 10)])"
  by pat_completeness auto
termination
  by (relation "measure nat") auto

declare show_digits.simps [simp del]

text \<open>The number of decimal digits of a positive integer, and \<open>\<lfloor>log10 x\<rfloor>\<close>.\<close>

function declen :: "int \<Rightarrow> int" where
  "declen n = (if n \<le> 0 then 0 else 1 + declen (n div 10))"
  by pat_completeness auto
termination
  by (relation "measure nat") auto

declare declen.simps [simp del]

definition ilog10 :: "rat \<Rightarrow> int" where
  "ilog10 x = (if 1 \<le> x then declen \<lfloor>x\<rfloor> - 1 else - declen (\<lceil>1 / x\<rceil> - 1))"

text \<open>
  \<open>Number::toString\<close> writes a positive double \<open>x\<close> with the fewest digits that
  read back as \<open>x\<close>: integers \<open>s\<close>, \<open>k\<close>, \<open>n\<close> with \<open>s\<close> of \<open>k\<close> digits,
  \<open>s * 10^(n-k)\<close> rounding to \<open>x\<close>, and \<open>k\<close> least; of two such \<open>s\<close> the
  one nearer to \<open>x\<close>. \<open>digits_candidate x n k\<close> looks for \<open>s\<close> of \<open>k\<close>
  digits among the two multiples of \<open>10^(n-k)\<close> around \<open>x\<close>, and gives \<open>s\<close>
  and \<open>n\<close> (one more when \<open>s\<close> has become \<open>10^k\<close>).
\<close>

definition digits_candidate :: "rat \<Rightarrow> int \<Rightarrow> int \<Rightarrow> (int \<times> int) option" where
  "digits_candidate x n k =
     (let scale = int_power 10 (n - k);
          lo = \<lfloor>x / scale\<rfloor>;
          hi = lo + 1;
          ok_lo = (to_double (of_int lo * scale) = Fin x);
          ok_hi = (to_double (of_int hi * scale) = Fin x);
          below = x - of_int lo * scale;
          above = of_int hi * scale - x;
          s = (if ok_lo \<and> ok_hi
               then (if below < above then lo else if above < below then hi
                     else if even lo then lo else hi)
               else if ok_lo then lo else hi)
      in if \<not> ok_lo \<and> \<not> ok_hi then None
         else if s = 10 ^ nat k then Some (10 ^ nat (k - 1), n + 1)
         else Some (s, n))"

text \<open>
  The fewest digits: the first \<open>k\<close> from 1 to 17 with a candidate. Seventeen digits
  always tell a double from its neighbours; for a rational that is not a double the
  seventeen digits nearest to it are taken.
\<close>

fun shortest_digits :: "rat \<Rightarrow> int \<Rightarrow> int list \<Rightarrow> int \<times> int \<times> int" where
  "shortest_digits x n [] = (round_half_even (x / int_power 10 (n - 17)), 17, n)"
| "shortest_digits x n (k # ks) =
     (case digits_candidate x n k of
        Some (s, n') \<Rightarrow> (s, k, n')
      | None \<Rightarrow> shortest_digits x n ks)"

text \<open>
  The text of a positive number from \<open>s\<close>, \<open>k\<close> and \<open>n\<close>: the digits followed by
  zeros up to 21 digits, the digits with a decimal point, \<open>0.\<close> followed by at most
  six zeros and the digits, and the exponent notation otherwise.
\<close>

definition shortest_to_string :: "rat \<Rightarrow> string" where
  "shortest_to_string x =
     (case shortest_digits x (ilog10 x + 1) [1, 2, 3, 4, 5, 6, 7, 8, 9, 10, 11, 12, 13, 14, 15, 16, 17] of
        (s, k, n) \<Rightarrow>
          (let ds = show_digits s in
           if k \<le> n \<and> n \<le> 21 then ds @ replicate (nat (n - k)) CHR ''0''
           else if 0 < n \<and> n \<le> 21 then take (nat n) ds @ ''.'' @ drop (nat n) ds
           else if - 6 < n \<and> n \<le> 0 then ''0.'' @ replicate (nat (- n)) CHR ''0'' @ ds
           else (let e = n - 1;
                     exponent = (if e < 0 then ''-'' else ''+'') @ show_digits \<bar>e\<bar>
                 in if k = 1 then ds @ ''e'' @ exponent
                    else take 1 ds @ ''.'' @ drop 1 ds @ ''e'' @ exponent)))"

text \<open>
  The text a template literal gives a number. An integer below \<open>2^53\<close> in
  magnitude is a double whose neighbours are at least 1 away, so the fewest digits that
  read back as it are all of its digits: it is written in full, which is what the
  general rule gives as well.
\<close>

definition positive_to_string :: "rat \<Rightarrow> string" where
  "positive_to_string a =
     (if a < 2 ^ 53 \<and> of_int \<lfloor>a\<rfloor> = a then show_digits \<lfloor>a\<rfloor>
      else shortest_to_string a)"

fun number_to_string :: "jsnum \<Rightarrow> string" where
  "number_to_string (Fin a) =
     (if a = 0 then ''0''
      else if a < 0 then ''-'' @ positive_to_string (- a)
      else positive_to_string a)"
| "number_to_string PosInf = ''Infinity''"
| "number_to_string NegInf = ''-Infinity''"
| "number_to_string NaN = ''NaN''"

section \<open>The odds converter\<close>

text \<open>
  \<open>parseFloat\<close> of a value that is already a number prints it and reads it back,
  which gives the same number.
\<close>

definition parseFloat :: "jsnum \<Rightarrow> jsnum" where
  "parseFloat x = x"

text \<open>\<open>probToAmericanOdds\<close>, the same in every Polymarket script.\<close>

definition probToAmericanOdds :: "jsnum \<Rightarrow> string" where
  "probToAmericanOdds probability =
     (let prob = parseFloat probability in
      if js_ge prob (Fin (1 / 2)) then
        (let odds = Math_round (js_div (js_neg (js_mul prob (Fin 100))) (js_sub (Fin 1) prob))
         in number_to_string odds)
      else
        (let odds = Math_round (js_div (js_mul (js_sub (Fin 1) prob) (Fin 100)) prob)
         in ''+'' @ number_to_string odds))"

text \<open>
  The denominator of the division \<open>probToAmericanOdds\<close> performs: \<open>1 - prob\<close> in
  the first branch, \<open>prob\<close> in the second.
\<close>

definition odds_denominator :: "jsnum \<Rightarrow> jsnum" where
  "odds_denominator probability =
     (let prob = parseFloat probability in
      if js_ge prob (Fin (1 / 2)) then js_sub (Fin 1) prob else prob)"

text \<open>\<open>kalshiPriceToAmericanOdds\<close> of update-kalshi-bafta.js.\<close>

definition kalshiPriceToAmericanOdds :: "jsnum \<Rightarrow> string" where
  "kalshiPriceToAmericanOdds priceInCents =
     (let prob = js_div priceInCents (Fin 100) in
      if js_ge prob (Fin (1 / 2)) then
        (let odds = Math_round (js_div (js_neg (js_mul prob (Fin 100))) (js_sub (Fin 1) prob))
         in number_to_string odds)
      else
        (let odds = Math_round (js_div (js_mul (js_sub (Fin 1) prob) (Fin 100)) prob)
         in ''+'' @ number_to_string odds))"

section \<open>String operations of the scripts\<close>

text \<open>
  \<open>toLowerCase\<close> on the letters A to Z; every other character is left as it is
  (JavaScript also folds letters outside ASCII, which is not modelled).
\<close>

definition lower_char :: "char \<Rightarrow> char" where
  "lower_char c =
     (case map_of (zip ''ABCDEFGHIJKLMNOPQRSTUVWXYZ'' ''abcdefghijklmnopqrstuvwxyz'') c of
        None \<Rightarrow> c
      | Some d \<Rightarrow> d)"

definition toLowerCase :: "string \<Rightarrow> string" where
  "toLowerCase s = map lower_char s"

fun startsWith :: "string \<Rightarrow> string \<Rightarrow> bool" where
  "startsWith s [] = True"
| "startsWith [] (c # t) = False"
| "startsWith (d # s) (c # t) = (d = c \<and> startsWith s t)"

text \<open>\<open>s.includes(t)\<close>: \<open>t\<close> occurs in \<open>s\<close> as a contiguous run.\<close>

fun str_includes :: "string \<Rightarrow> string \<Rightarrow> bool" where
  "str_includes [] t = (t = [])"
| "str_includes (d # s) t = (startsWith (d # s) t \<or> str_includes s t)"

text \<open>\<open>trim\<close>, for the white space of ASCII (tab to carriage return, and the space).\<close>

definition is_space :: "char \<Rightarrow> bool" where
  "is_space c = (c \<in> set [CHR '' '', CHR 0x09, CHR 0x0A, CHR 0x0B, CHR 0x0C, CHR 0x0D])"

definition trim :: "string \<Rightarrow> string" where
  "trim s = rev (dropWhile is_space (rev (dropWhile is_space s)))"

text \<open>
  The placeholder patterns. \<open>/^(Other|P1 [A-Z]|...|Pn [A-Z])$/i\<close> matches a name
  that, letter case apart, is \<open>Other\<close> or one of the prefixes followed by a space and
  one letter. The prefixes are given in lower case.
\<close>

definition placeholder_names :: "string list \<Rightarrow> string list" where
  "placeholder_names prefixes =
     ''other'' #
     concat (map (\<lambda>p. map (\<lambda>c. p @ '' '' @ [c]) ''abcdefghijklmnopqrstuvwxyz'') prefixes)"

definition matches_placeholder :: "string list \<Rightarrow> string \<Rightarrow> bool" where
  "matches_placeholder prefixes nm = (toLowerCase nm \<in> set (placeholder_names prefixes))"

text \<open>\<open>/^(Other|Movie [A-Z]|Actor [A-Z]|Actress [A-Z]|Director [A-Z]|Film [A-Z])$/i\<close>\<close>

definition generic_placeholder :: "string \<Rightarrow> bool" where
  "generic_placeholder nm =
     matches_placeholder [''movie'', ''actor'', ''actress'', ''director'', ''film''] nm"

text \<open>\<open>/^(Other|Film [A-Z])$/i\<close>, the pattern of \<open>fetchCategory\<close>.\<close>

definition other_or_film :: "string \<Rightarrow> bool" where
  "other_or_film nm = matches_placeholder [''film''] nm"

section \<open>Markets, quotes and responses\<close>

text \<open>
  A field of a market that carries JSON text: absent, the empty string, a text that
  \<open>JSON.parse\<close> rejects (or that parses to \<open>null\<close>, on which the next read raises
  as well), or a text that parses to an array. An entry of the price array is held as
  the number \<open>parseFloat\<close> reads from it, NaN when it is not numeric.
\<close>

datatype 'a encoded = Missing | Blank | Malformed | Decoded "'a list"

record market =
  question :: "string option"
  groupItemTitle :: "string option"
  outcomePrices :: "jsnum encoded"
  outcomes :: "string encoded"

record quote =
  name :: string
  odds :: string

record pquote = quote +
  probability :: jsnum

text \<open>
  What a request comes to: \<open>fetch\<close> rejects, or there is a response with its
  \<open>ok\<close> flag (a status from 200 to 299) and its body, which is empty, is not JSON, or
  parses to a value.
\<close>

datatype js_error = FetchError | HttpError | SyntaxError | TypeError | ReferenceError

datatype 'd http_body = EmptyBody | InvalidJson | Json 'd

datatype 'd fetch_outcome = NetworkFailure | Response bool "'d http_body"

record event =
  markets :: "market list option"

datatype slug_data = NotArray | Events "event list"

text \<open>A value is truthy as a name when it is a non-empty string.\<close>

fun truthy :: "string option \<Rightarrow> bool" where
  "truthy None = False"
| "truthy (Some s) = (s \<noteq> [])"

text \<open>\<open>parseFloat(prices[0])\<close>: NaN when the array has no first entry.\<close>

fun first_price :: "jsnum list \<Rightarrow> jsnum" where
  "first_price [] = NaN"
| "first_price (p # ps) = p"

definition events_url :: "string \<Rightarrow> string" where
  "events_url slug = ''https://gamma-api.polymarket.com/events?slug='' @ slug"

section \<open>Polymarket by slug: fetchPolymarketData (update-polymarket.js)\<close>

text \<open>
  The body of the inner \<open>try\<close>, for one market: \<open>Inl\<close> when it raises, \<open>Inr None\<close>
  when nothing is pushed, \<open>Inr (Some q)\<close> when \<open>q\<close> is pushed.
\<close>

definition market_quote :: "market \<Rightarrow> js_error + quote option" where
  "market_quote m =
     (case outcomePrices m of
        Missing \<Rightarrow> Inr None
      | Blank \<Rightarrow> Inl SyntaxError
      | Malformed \<Rightarrow> Inl SyntaxError
      | Decoded prices \<Rightarrow>
          (let probability = first_price prices; nm = groupItemTitle m in
           if truthy nm \<and> \<not> generic_placeholder (the nm)
           then Inr (Some \<lparr>name = the nm, odds = probToAmericanOdds probability\<rparr>)
           else Inr None))"

text \<open>The \<open>for\<close> loop: a market whose body raises is skipped by the inner \<open>catch\<close>.\<close>

fun collect_quotes :: "quote list \<Rightarrow> market list \<Rightarrow> quote list" where
  "collect_quotes nominees [] = nominees"
| "collect_quotes nominees (m # ms) =
     (case market_quote m of
        Inl e \<Rightarrow> collect_quotes nominees ms
      | Inr None \<Rightarrow> collect_quotes nominees ms
      | Inr (Some q) \<Rightarrow> collect_quotes (nominees @ [q]) ms)"

text \<open>The body of the outer \<open>try\<close>. The status of the response is not looked at.\<close>

definition fetchPolymarketData_try :: "slug_data fetch_outcome \<Rightarrow> js_error + quote list" where
  "fetchPolymarketData_try r =
     (case r of
        NetworkFailure \<Rightarrow> Inl FetchError
      | Response ok EmptyBody \<Rightarrow> Inl SyntaxError
      | Response ok InvalidJson \<Rightarrow> Inl SyntaxError
      | Response ok (Json NotArray) \<Rightarrow> Inr []
      | Response ok (Json (Events [])) \<Rightarrow> Inr []
      | Response ok (Json (Events (ev # evs))) \<Rightarrow>
          (case markets ev of
             None \<Rightarrow> Inl TypeError
           | Some ms \<Rightarrow> Inr (collect_quotes [] ms)))"

definition fetchPolymarketData :: "(string \<Rightarrow> slug_data fetch_outcome) \<Rightarrow> string \<Rightarrow> quote list" where
  "fetchPolymarketData net slug =
     (case fetchPolymarketData_try (net (events_url slug)) of
        Inl e \<Rightarrow> []
      | Inr nominees \<Rightarrow> nominees)"

section \<open>Polymarket by slug: fetchCategory (update-polymarket.js, second script)\<close>

text \<open>
  The function given to \<open>map\<close>: \<open>JSON.parse(market.outcomePrices)\<close> raises on an
  absent field as well, and nothing catches it per market.
\<close>

definition category_entry :: "market \<Rightarrow> js_error + (string option \<times> jsnum \<times> string)" where
  "category_entry m =
     (case outcomePrices m of
        Decoded prices \<Rightarrow>
          (let probability = first_price prices
           in Inr (groupItemTitle m, probability, probToAmericanOdds probability))
      | _ \<Rightarrow> Inl SyntaxError)"

text \<open>\<open>map\<close> with a function that may raise: the first exception ends it.\<close>

fun map_raising :: "('a \<Rightarrow> js_error + 'b) \<Rightarrow> 'a list \<Rightarrow> js_error + 'b list" where
  "map_raising f [] = Inr []"
| "map_raising f (x # xs) =
     (case f x of
        Inl e \<Rightarrow> Inl e
      | Inr y \<Rightarrow> (case map_raising f xs of Inl e \<Rightarrow> Inl e | Inr ys \<Rightarrow> Inr (y # ys)))"

definition keep_entry :: "string option \<times> jsnum \<times> string \<Rightarrow> bool" where
  "keep_entry n = (truthy (fst n) \<and> \<not> other_or_film (the (fst n)))"

definition entry_quote :: "string option \<times> jsnum \<times> string \<Rightarrow> pquote" where
  "entry_quote n = \<lparr>name = the (fst n), odds = snd (snd n), probability = fst (snd n)\<rparr>"

text \<open>The body of the \<open>try\<close>: \<open>Inr None\<close> is a returned \<open>null\<close>.\<close>

definition fetchCategory_try :: "slug_data fetch_outcome \<Rightarrow> js_error + pquote list option" where
  "fetchCategory_try r =
     (case r of
        NetworkFailure \<Rightarrow> Inl FetchError
      | Response ok b \<Rightarrow>
          if \<not> ok then Inr None
          else (case b of
             EmptyBody \<Rightarrow> Inr None
           | InvalidJson \<Rightarrow> Inl SyntaxError
           | Json NotArray \<Rightarrow> Inr None
           | Json (Events []) \<Rightarrow> Inr None
           | Json (Events (ev # evs)) \<Rightarrow>
               (case markets ev of
                  None \<Rightarrow> Inr None
                | Some [] \<Rightarrow> Inr None
                | Some ms \<Rightarrow>
                    (case map_raising category_entry ms of
                       Inl e \<Rightarrow> Inl e
                     | Inr ns \<Rightarrow> Inr (Some (map entry_quote (filter keep_entry ns)))))))"

definition fetchCategory :: "(string \<Rightarrow> slug_data fetch_outcome) \<Rightarrow> string \<Rightarrow> pquote list option" where
  "fetchCategory net slug =
     (case fetchCategory_try (net (events_url slug)) of
        Inl e \<Rightarrow> None
      | Inr res \<Rightarrow> res)"

section \<open>Polymarket by slug: fetchPolymarketData (second script of part_000)\<close>

text \<open>
  This script reads \<open>event.markets\<close> where no \<open>event\<close> is bound: once the response
  has parsed to something that is not empty, the read raises a ReferenceError, which the
  \<open>catch\<close> turns into the empty list. A parsed value that is not an array is either
  falsy (the function returns the empty list) or not (the read raises); both are taken
  as the raising case here.
\<close>

definition fetchPolymarketData_json_try :: "slug_data fetch_outcome \<Rightarrow> js_error + pquote list" where
  "fetchPolymarketData_json_try r =
     (case r of
        NetworkFailure \<Rightarrow> Inl FetchError
      | Response ok EmptyBody \<Rightarrow> Inl SyntaxError
      | Response ok InvalidJson \<Rightarrow> Inl SyntaxError
      | Response ok (Json (Events [])) \<Rightarrow> Inr []
      | Response ok (Json d) \<Rightarrow> Inl ReferenceError)"

definition fetchPolymarketData_json :: "(string \<Rightarrow> slug_data fetch_outcome) \<Rightarrow> string \<Rightarrow> pquote list" where
  "fetchPolymarketData_json net slug =
     (case fetchPolymarketData_json_try (net (events_url slug)) of
        Inl e \<Rightarrow> []
      | Inr nominees \<Rightarrow> nominees)"

section \<open>Polymarket bulk search (part_001)\<close>

datatype listing_data = NotAnArray | Markets "market list"

definition limit :: nat where
  "limit = 100"

definition is_oscars_market :: "market \<Rightarrow> bool" where
  "is_oscars_market m =
     (truthy (question m) \<and>
      (str_includes (the (question m)) ''Oscars 2026'' \<or>
       str_includes (the (question m)) ''Academy Awards 2026''))"

text \<open>
  One turn of the \<open>while (true)\<close> loop up to \<open>offset += limit\<close>: either the loop is
  left, by a \<open>throw\<close> or a \<open>break\<close>, or it goes on with the markets gathered so far.
\<close>

datatype page_result = Leave "js_error + market list" | Continue "market list"

definition fetch_page :: "listing_data fetch_outcome \<Rightarrow> market list \<Rightarrow> page_result" where
  "fetch_page r allMarkets =
     (case r of
        NetworkFailure \<Rightarrow> Leave (Inl FetchError)
      | Response ok b \<Rightarrow>
          if \<not> ok then Leave (Inl HttpError)
          else (case b of
             EmptyBody \<Rightarrow> Leave (Inl SyntaxError)
           | InvalidJson \<Rightarrow> Leave (Inl SyntaxError)
           | Json NotAnArray \<Rightarrow> Leave (Inr allMarkets)
           | Json (Markets ms) \<Rightarrow>
               if ms = [] then Leave (Inr allMarkets)
               else (let gathered = allMarkets @ filter is_oscars_market ms
                     in if length ms < limit then Leave (Inr gathered) else Continue gathered)))"

text \<open>
  The loop. The network answers a listing request by its offset; the offsets requested
  are recorded in order, next to the result.
\<close>

function pagination ::
  "(nat \<Rightarrow> listing_data fetch_outcome) \<Rightarrow> nat \<Rightarrow> market list \<Rightarrow> nat list
     \<Rightarrow> (js_error + market list) \<times> nat list" where
  "pagination net offset allMarkets requested =
     (case fetch_page (net offset) allMarkets of
        Leave res \<Rightarrow> (res, requested @ [offset])
      | Continue gathered \<Rightarrow>
          if offset + limit \<ge> 500 then (Inr gathered, requested @ [offset])
          else pagination net (offset + limit) gathered (requested @ [offset]))"
  by pat_completeness auto
termination
  by (relation "measure (\<lambda>(net, offset, allMarkets, requested). 500 - offset)")
     (auto simp: limit_def)

declare pagination.simps [simp del]

definition fetchAllOscarsMarkets :: "(nat \<Rightarrow> listing_data fetch_outcome) \<Rightarrow> market list" where
  "fetchAllOscarsMarkets net =
     (case fst (pagination net 0 [] []) of
        Inl e \<Rightarrow> []
      | Inr allMarkets \<Rightarrow> allMarkets)"

definition listing_requests :: "(nat \<Rightarrow> listing_data fetch_outcome) \<Rightarrow> nat list" where
  "listing_requests net = snd (pagination net 0 [] [])"

text \<open>\<open>extractNominees\<close>: the array a field parses to, \<open>[]\<close> for a falsy field.\<close>

fun parsed_or_empty :: "'a encoded \<Rightarrow> js_error + 'a list" where
  "parsed_or_empty Missing = Inr []"
| "parsed_or_empty Blank = Inr []"
| "parsed_or_empty Malformed = Inl SyntaxError"
| "parsed_or_empty (Decoded xs) = Inr xs"

definition first_outcome :: "string list \<Rightarrow> string option" where
  "first_outcome os = (case os of [] \<Rightarrow> None | x # xs \<Rightarrow> Some x)"

definition category_quote :: "market \<Rightarrow> js_error + pquote option" where
  "category_quote m =
     (case parsed_or_empty (outcomes m) of
        Inl e \<Rightarrow> Inl e
      | Inr os \<Rightarrow>
          (case parsed_or_empty (outcomePrices m) of
             Inl e \<Rightarrow> Inl e
           | Inr prices \<Rightarrow>
               (let nm = (if truthy (groupItemTitle m) then groupItemTitle m else first_outcome os) in
                if truthy nm \<and> length prices > 0 then
                  (let probability = first_price prices in
                   if \<not> generic_placeholder (the nm)
                   then Inr (Some \<lparr>name = the nm, odds = probToAmericanOdds probability,
                                   probability = probability\<rparr>)
                   else Inr None)
                else Inr None)))"

fun collect_category :: "pquote list \<Rightarrow> market list \<Rightarrow> pquote list" where
  "collect_category nominees [] = nominees"
| "collect_category nominees (m # ms) =
     (case category_quote m of
        Inl e \<Rightarrow> collect_category nominees ms
      | Inr None \<Rightarrow> collect_category nominees ms
      | Inr (Some q) \<Rightarrow> collect_category (nominees @ [q]) ms)"

text \<open>
  \<open>nominees.sort((a, b) => b.probability - a.probability)\<close>: a stable sort, \<open>a\<close> going
  behind \<open>b\<close> when the difference is positive. A difference that is NaN counts as a
  tie; with NaN among the probabilities the order JavaScript gives depends on the
  engine, and this insertion sort is one such order.
\<close>

fun js_positive :: "jsnum \<Rightarrow> bool" where
  "js_positive (Fin a) = (0 < a)"
| "js_positive PosInf = True"
| "js_positive NegInf = False"
| "js_positive NaN = False"

fun insert_by_probability :: "pquote \<Rightarrow> pquote list \<Rightarrow> pquote list" where
  "insert_by_probability a [] = [a]"
| "insert_by_probability a (b # bs) =
     (if js_positive (js_sub (probability b) (probability a))
      then b # insert_by_probability a bs
      else a # b # bs)"

definition sort_by_probability :: "pquote list \<Rightarrow> pquote list" where
  "sort_by_probability qs = foldr insert_by_probability qs []"

definition extractNominees :: "market list \<Rightarrow> string \<Rightarrow> pquote list" where
  "extractNominees ms categorySearch =
     (let categoryMarkets =
            filter (\<lambda>m. truthy (question m) \<and> str_includes (the (question m)) categorySearch) ms
      in if categoryMarkets = [] then []
         else sort_by_probability (collect_category [] categoryMarkets))"

section \<open>Kalshi by series (update-kalshi-bafta.js)\<close>

record kalshi_market =
  title :: "string option"
  subtitle :: "string option"
  yes_price :: "jsnum option"

record kalshi_data =
  kalshi_markets :: "kalshi_market list option"

definition kalshi_name :: "kalshi_market \<Rightarrow> string" where
  "kalshi_name m =
     (if truthy (title m) then the (title m)
      else if truthy (subtitle m) then the (subtitle m)
      else [])"

text \<open>
  One market of the loop: \<open>yes_price\<close> is \<open>None\<close> when it is \<open>undefined\<close> or \<open>null\<close>;
  every number passes the check, zero and one hundred as well.
\<close>

definition kalshi_quote :: "kalshi_market \<Rightarrow> quote option" where
  "kalshi_quote m =
     (let nm = kalshi_name m; yesPrice = yes_price m in
      if nm \<noteq> [] \<and> yesPrice \<noteq> None
      then Some \<lparr>name = trim nm, odds = kalshiPriceToAmericanOdds (the yesPrice)\<rparr>
      else None)"

fun collect_kalshi :: "quote list \<Rightarrow> kalshi_market list \<Rightarrow> quote list" where
  "collect_kalshi nominees [] = nominees"
| "collect_kalshi nominees (m # ms) =
     (case kalshi_quote m of
        None \<Rightarrow> collect_kalshi nominees ms
      | Some q \<Rightarrow> collect_kalshi (nominees @ [q]) ms)"

definition fetchKalshiData_try :: "kalshi_data fetch_outcome \<Rightarrow> js_error + quote list" where
  "fetchKalshiData_try r =
     (case r of
        NetworkFailure \<Rightarrow> Inl FetchError
      | Response ok b \<Rightarrow>
          if \<not> ok then Inr []
          else (case b of
             EmptyBody \<Rightarrow> Inl SyntaxError
           | InvalidJson \<Rightarrow> Inl SyntaxError
           | Json d \<Rightarrow>
               (case kalshi_markets d of
                  None \<Rightarrow> Inr []
                | Some [] \<Rightarrow> Inr []
                | Some ms \<Rightarrow> Inr (collect_kalshi [] ms))))"

definition markets_url :: "string \<Rightarrow> string" where
  "markets_url seriesTicker =
     ''https://api.elections.kalshi.com/trade-api/v2/markets?series_ticker='' @ seriesTicker @
     ''&status=open&limit=100''"

definition fetchKalshiData :: "(string \<Rightarrow> kalshi_data fetch_outcome) \<Rightarrow> string \<Rightarrow> quote list" where
  "fetchKalshiData net seriesTicker =
     (case fetchKalshiData_try (net (markets_url seriesTicker)) of
        Inl e \<Rightarrow> []
      | Inr nominees \<Rightarrow> nominees)"

section \<open>The stored nominees and the category updates\<close>

text \<open>
  A stored nominee: its name, the odds object (a map from the source's key to the odds
  string), \<open>lastUpdated\<close>, and whatever other fields the record has. The database holds
  a list of nominees under a path; the writes issued are logged next to the contents.
\<close>

record 'a nominee =
  nominee_name :: string
  nominee_odds :: "string \<rightharpoonup> string"
  lastUpdated :: "string option"
  other_fields :: 'a

text \<open>The keys of a patch: \<open>"<index>/odds/<source>"\<close> and \<open>"<index>/lastUpdated"\<close>.\<close>

datatype update_key = OddsKey nat string | LastUpdatedKey nat

type_synonym updates = "(update_key \<times> string) list"

datatype 'a db_write = UpdateAt string updates | SetAt string "'a nominee list"

record 'a firebase =
  stored :: "string \<rightharpoonup> 'a nominee list"
  written :: "'a db_write list"

text \<open>
  One entry of a patch sets one field of one nominee and leaves every sibling as it is.
  The keys \<open>updateCategory\<close> builds are indices of the list it has read; a key beyond
  the list (which would create a child) is left without effect here.
\<close>

fun apply_patch :: "update_key \<times> string \<Rightarrow> 'a nominee list \<Rightarrow> 'a nominee list" where
  "apply_patch (OddsKey i source, v) ns =
     (if i < length ns
      then ns[i := (ns ! i)\<lparr>nominee_odds := (nominee_odds (ns ! i))(source \<mapsto> v)\<rparr>]
      else ns)"
| "apply_patch (LastUpdatedKey i, v) ns =
     (if i < length ns then ns[i := (ns ! i)\<lparr>lastUpdated := Some v\<rparr>] else ns)"

text \<open>\<open>ref.update(updates)\<close> and \<open>ref.set(value)\<close> at a path.\<close>

definition ref_update :: "string \<Rightarrow> updates \<Rightarrow> 'a firebase \<Rightarrow> 'a firebase" where
  "ref_update path us fb =
     fb\<lparr>stored := (case stored fb path of
                      None \<Rightarrow> stored fb
                    | Some ns \<Rightarrow> (stored fb)(path \<mapsto> fold apply_patch us ns)),
        written := written fb @ [UpdateAt path us]\<rparr>"

definition ref_set :: "string \<Rightarrow> 'a nominee list \<Rightarrow> 'a firebase \<Rightarrow> 'a firebase" where
  "ref_set path ns fb =
     fb\<lparr>stored := (stored fb)(path \<mapsto> ns), written := written fb @ [SetAt path ns]\<rparr>"

definition nominees_path :: "string \<Rightarrow> string" where
  "nominees_path firebasePath = firebasePath @ ''/nominees''"

subsection \<open>The three predicates given to find\<close>

text \<open>update-polymarket.js (first script): lower case on both sides of every test.\<close>

definition polymarket_match :: "'a nominee \<Rightarrow> 'b quote_scheme \<Rightarrow> bool" where
  "polymarket_match nominee p =
     (toLowerCase (name p) = toLowerCase (nominee_name nominee) \<or>
      str_includes (toLowerCase (name p)) (toLowerCase (nominee_name nominee)) \<or>
      str_includes (toLowerCase (nominee_name nominee)) (toLowerCase (name p)))"

text \<open>update-kalshi-bafta.js: the same tests in another order.\<close>

definition kalshi_match :: "'a nominee \<Rightarrow> 'b quote_scheme \<Rightarrow> bool" where
  "kalshi_match nominee k =
     (str_includes (toLowerCase (name k)) (toLowerCase (nominee_name nominee)) \<or>
      str_includes (toLowerCase (nominee_name nominee)) (toLowerCase (name k)) \<or>
      toLowerCase (name k) = toLowerCase (nominee_name nominee))"

text \<open>part_001: lower case for the equality only; the two \<open>includes\<close> compare as is.\<close>

definition bulk_match :: "'a nominee \<Rightarrow> 'b quote_scheme \<Rightarrow> bool" where
  "bulk_match nominee p =
     (toLowerCase (name p) = toLowerCase (nominee_name nominee) \<or>
      str_includes (name p) (nominee_name nominee) \<or>
      str_includes (nominee_name nominee) (name p))"

subsection \<open>Patching: updateCategory of update-polymarket.js and update-kalshi-bafta.js\<close>

text \<open>
  The callback of \<open>firebaseNominees.forEach\<close>, on the updates object gathered so far
  (the counter it also keeps is only printed). The two scripts differ in the source key
  and in the predicate.
\<close>

definition match_update ::
  "string \<Rightarrow> ('a nominee \<Rightarrow> 'b quote_scheme \<Rightarrow> bool) \<Rightarrow> 'b quote_scheme list \<Rightarrow> string
     \<Rightarrow> updates \<Rightarrow> nat \<times> 'a nominee \<Rightarrow> updates" where
  "match_update source matches quotes today us entry =
     (case find (matches (snd entry)) quotes of
        Some m \<Rightarrow> us @ [(OddsKey (fst entry) source, odds m), (LastUpdatedKey (fst entry), today)]
      | None \<Rightarrow> us)"

definition gather_updates ::
  "string \<Rightarrow> ('a nominee \<Rightarrow> 'b quote_scheme \<Rightarrow> bool) \<Rightarrow> 'b quote_scheme list \<Rightarrow> string
     \<Rightarrow> 'a nominee list \<Rightarrow> updates" where
  "gather_updates source matches quotes today firebaseNominees =
     foldl (match_update source matches quotes today) [] (enumerate 0 firebaseNominees)"

definition patch_category ::
  "string \<Rightarrow> ('a nominee \<Rightarrow> 'b quote_scheme \<Rightarrow> bool) \<Rightarrow> 'b quote_scheme list \<Rightarrow> string \<Rightarrow> string
     \<Rightarrow> 'a firebase \<Rightarrow> 'a firebase" where
  "patch_category source matches quotes firebasePath today fb =
     (if quotes = [] then fb
      else (case stored fb (nominees_path firebasePath) of
         None \<Rightarrow> fb
       | Some firebaseNominees \<Rightarrow>
           (let us = gather_updates source matches quotes today firebaseNominees
            in if us \<noteq> [] then ref_update (nominees_path firebasePath) us fb else fb)))"

definition updateCategory ::
  "(string \<Rightarrow> slug_data fetch_outcome) \<Rightarrow> string \<Rightarrow> string \<Rightarrow> string \<Rightarrow> 'a firebase \<Rightarrow> 'a firebase" where
  "updateCategory net slug firebasePath today fb =
     patch_category ''polymarket'' polymarket_match (fetchPolymarketData net slug) firebasePath today fb"

definition updateCategory_kalshi ::
  "(string \<Rightarrow> kalshi_data fetch_outcome) \<Rightarrow> string \<Rightarrow> string \<Rightarrow> string \<Rightarrow> 'a firebase \<Rightarrow> 'a firebase" where
  "updateCategory_kalshi net seriesTicker firebasePath today fb =
     patch_category ''kalshi'' kalshi_match (fetchKalshiData net seriesTicker) firebasePath today fb"

subsection \<open>Replacing: updateCategory of part_001\<close>

text \<open>The object spread: the nominee with \<open>odds.<source>\<close> and \<open>lastUpdated\<close> set.\<close>

definition with_odds :: "string \<Rightarrow> string \<Rightarrow> string \<Rightarrow> 'a nominee \<Rightarrow> 'a nominee" where
  "with_odds source v today nominee =
     nominee\<lparr>nominee_odds := (nominee_odds nominee)(source \<mapsto> v), lastUpdated := Some today\<rparr>"

definition updated_nominee ::
  "string \<Rightarrow> ('a nominee \<Rightarrow> 'b quote_scheme \<Rightarrow> bool) \<Rightarrow> 'b quote_scheme list \<Rightarrow> string
     \<Rightarrow> 'a nominee \<Rightarrow> 'a nominee" where
  "updated_nominee source matches quotes today nominee =
     (case find (matches nominee) quotes of
        Some m \<Rightarrow> with_odds source (odds m) today nominee
      | None \<Rightarrow> nominee)"

definition updateCategory_bulk ::
  "string \<Rightarrow> string \<Rightarrow> market list \<Rightarrow> string \<Rightarrow> 'a firebase \<Rightarrow> 'a firebase" where
  "updateCategory_bulk search path allMarkets today fb =
     (let polymarketData = extractNominees allMarkets search in
      if polymarketData = [] then fb
      else (case stored fb (nominees_path path) of
         None \<Rightarrow> fb
       | Some [] \<Rightarrow> fb
       | Some firebaseNominees \<Rightarrow>
           (let updatedNominees =
                  map (updated_nominee ''polymarket'' bulk_match polymarketData today) firebaseNominees
            in ref_set (nominees_path path) updatedNominees fb)))"

section \<open>Concrete inputs for the examples\<close>

definition sample_market :: market where
  "sample_market =
     \<lparr>question = Some ''Oscars 2026: Best Picture Winner'', groupItemTitle = Some ''Sinners'',
      outcomePrices = Decoded [Fin (1 / 4)], outcomes = Missing\<rparr>"

definition oppenheimer_market :: market where
  "oppenheimer_market =
     \<lparr>question = Some ''Oscars 2026: Best Picture Winner'', groupItemTitle = Some ''Oppenheimer'',
      outcomePrices = Decoded [to_double (82 / 100), to_double (18 / 100)], outcomes = Decoded [''Yes'', ''No'']\<rparr>"

definition events_with :: "market list \<Rightarrow> string \<Rightarrow> slug_data fetch_outcome" where
  "events_with ms url = Response True (Json (Events [\<lparr>markets = Some ms\<rparr>]))"

definition kalshi_with :: "kalshi_market list \<Rightarrow> string \<Rightarrow> kalshi_data fetch_outcome" where
  "kalshi_with ms url = Response True (Json \<lparr>kalshi_markets = Some ms\<rparr>)"

definition sample_nominee :: "unit nominee" where
  "sample_nominee =
     \<lparr>nominee_name = ''Oppenheimer'', nominee_odds = [''kalshi'' \<mapsto> ''+150''],
      lastUpdated = None, other_fields = ()\<rparr>"

definition sample_store :: "unit firebase" where
  "sample_store =
     \<lparr>stored = [nominees_path ''oscars/best-picture'' \<mapsto> [sample_nominee]], written = []\<rparr>"

definition sinners_kalshi :: kalshi_market where
  "sinners_kalshi = \<lparr>title = Some ''Sinners'', subtitle = None, yes_price = Some (Fin 25)\<rparr>"

definition movie_a_market :: market where
  "movie_a_market =
     \<lparr>question = Some ''Oscars 2026: Best Picture Winner'', groupItemTitle = Some ''Movie A'',
      outcomePrices = Decoded [to_double (1 / 100), to_double (99 / 100)], outcomes = Decoded [''Yes'', ''No'']\<rparr>"

definition dune_market :: market where
  "dune_market =
     \<lparr>question = Some ''Oscars 2026: Best Picture Winner'', groupItemTitle = Some ''Dune: Part Two'',
      outcomePrices = Decoded [to_double (1 / 10), to_double (9 / 10)], outcomes = Decoded [''Yes'', ''No'']\<rparr>"

definition malformed_market :: market where
  "malformed_market =
     \<lparr>question = Some ''Oscars 2026: Best Picture Winner'', groupItemTitle = Some ''Anora'',
      outcomePrices = Malformed, outcomes = Decoded [''Yes'', ''No'']\<rparr>"

definition nominee_named :: "string \<Rightarrow> unit nominee" where
  "nominee_named nm =
     \<lparr>nominee_name = nm, nominee_odds = Map.empty, lastUpdated = None, other_fields = ()\<rparr>"

section \<open>Rounding to a double keeps the order\<close>

text \<open>
  A double is an integer below \<open>2^53\<close> times a power of two from \<open>2^(-1074)\<close> to
  \<open>2^971\<close>. Rounding does not cross a double: a rational at least (at most) a
  double is rounded to a number at least (at most) that double. The bounds on the
  converter rest on this.
\<close>

lemma int_power_powi: "b \<noteq> 0 \<Longrightarrow> int_power b e = of_int b powi e"
  by (simp add: int_power_def power_int_def field_simps)

lemma int_power_2: "int_power 2 e = 2 powi e"
  using int_power_powi [of 2 e] by simp

lemma powi_2_pos: "0 < (2::rat) powi e"
  by simp

lemma bitlen_bounds:
  "0 < n \<Longrightarrow> 1 \<le> bitlen n \<and> 2 ^ nat (bitlen n - 1) \<le> n \<and> n < 2 ^ nat (bitlen n)"
proof (induction n rule: bitlen.induct)
  case (1 n)
  show ?case
  proof (cases "n div 2 = 0")
    case True
    with "1.prems" have n: "n = 1" by presburger
    have "bitlen 1 = 1" by (simp add: bitlen.simps [of 1] bitlen.simps [of 0])
    with n show ?thesis by simp
  next
    case False
    with "1.prems" have pos: "0 < n div 2" by presburger
    from "1.prems" have step: "bitlen n = 1 + bitlen (n div 2)"
      by (simp add: bitlen.simps [of n])
    from "1.IH" pos "1.prems" have ih: "1 \<le> bitlen (n div 2)"
      "2 ^ nat (bitlen (n div 2) - 1) \<le> n div 2" "n div 2 < 2 ^ nat (bitlen (n div 2))"
      by auto
    obtain j where j: "nat (bitlen (n div 2)) = Suc j" "nat (bitlen (n div 2) - 1) = j"
      using ih(1) by (cases "nat (bitlen (n div 2))") auto
    have a: "nat (bitlen n - 1) = Suc j" "nat (bitlen n) = Suc (Suc j)"
      using step j ih(1) by auto
    from ih(2) j have "2 * 2 ^ j \<le> 2 * (n div 2)" by simp
    also have "\<dots> \<le> n" by presburger
    finally have lo: "2 ^ Suc j \<le> n" by simp
    from ih(3) j have "n div 2 + 1 \<le> 2 ^ Suc j" by simp
    then have "2 * (n div 2) + 2 \<le> 2 * 2 ^ Suc j" by simp
    moreover have "n < 2 * (n div 2) + 2" by presburger
    ultimately have hi: "n < 2 ^ Suc (Suc j)" by simp
    from step ih(1) lo hi a show ?thesis by simp
  qed
qed

lemma ilog2_lower:
  assumes "0 < x"
  shows "2 powi (ilog2 x) \<le> x"
proof (cases "1 \<le> x")
  case True
  then have f: "0 < \<lfloor>x\<rfloor>" by simp
  from bitlen_bounds [OF f] have b: "1 \<le> bitlen \<lfloor>x\<rfloor>" "2 ^ nat (bitlen \<lfloor>x\<rfloor> - 1) \<le> \<lfloor>x\<rfloor>"
    by auto
  have "(2::rat) powi (bitlen \<lfloor>x\<rfloor> - 1) = 2 ^ nat (bitlen \<lfloor>x\<rfloor> - 1)"
    using b(1) by (simp add: power_int_def)
  also have "\<dots> = of_int (2 ^ nat (bitlen \<lfloor>x\<rfloor> - 1))" by simp
  also have "\<dots> \<le> of_int \<lfloor>x\<rfloor>" using b(2) by (rule of_int_le_iff [THEN iffD2])
  also have "\<dots> \<le> x" by simp
  finally show ?thesis using True by (simp add: ilog2_def)
next
  case False
  with assms have inv: "1 < 1 / x" by simp
  define N where "N = \<lceil>1 / x\<rceil>"
  have N: "2 \<le> N" using inv unfolding N_def by (simp add: le_ceiling_iff)
  then have pos: "0 < N - 1" by simp
  from bitlen_bounds [OF pos] have b: "1 \<le> bitlen (N - 1)" "N - 1 < 2 ^ nat (bitlen (N - 1))"
    by auto
  then have "N \<le> 2 ^ nat (bitlen (N - 1))" by simp
  then have "(of_int N :: rat) \<le> of_int (2 ^ nat (bitlen (N - 1)))"
    by (rule of_int_le_iff [THEN iffD2])
  then have "(of_int N :: rat) \<le> 2 ^ nat (bitlen (N - 1))" by simp
  moreover have "1 / x \<le> of_int N" unfolding N_def by simp
  ultimately have "1 / x \<le> 2 ^ nat (bitlen (N - 1))" by (rule order_trans [rotated])
  with assms have "1 \<le> 2 ^ nat (bitlen (N - 1)) * x" by (simp add: field_simps)
  then have "1 / 2 ^ nat (bitlen (N - 1)) \<le> x" by (simp add: field_simps)
  moreover have "(2::rat) powi (- bitlen (N - 1)) = 1 / 2 ^ nat (bitlen (N - 1))"
    using b(1) by (simp add: power_int_def field_simps)
  ultimately show ?thesis using False by (simp add: ilog2_def N_def)
qed

lemma round_half_even_between:
  "\<lfloor>y\<rfloor> \<le> round_half_even y" "round_half_even y \<le> \<lceil>y\<rceil>"
proof -
  show "\<lfloor>y\<rfloor> \<le> round_half_even y" by (simp add: round_half_even_def Let_def)
  have "\<lfloor>y\<rfloor> + 1 \<le> \<lceil>y\<rceil>" if "of_int \<lfloor>y\<rfloor> < y"
  proof -
    from that have "\<lfloor>y\<rfloor> < \<lceil>y\<rceil>" by (simp only: less_ceiling_iff)
    then show ?thesis by simp
  qed
  moreover have "\<lfloor>y\<rfloor> \<le> \<lceil>y\<rceil>" by (rule floor_le_ceiling)
  moreover have "of_int \<lfloor>y\<rfloor> < y" if "of_int \<lfloor>y\<rfloor> + 1 / 2 \<le> y"
    using that by linarith
  ultimately show "round_half_even y \<le> \<lceil>y\<rceil>"
    by (auto simp: round_half_even_def Let_def not_less)
qed

lemma round_half_even_ge: "of_int N \<le> y \<Longrightarrow> N \<le> round_half_even y"
  using round_half_even_between(1) [of y] by (meson le_floor_iff order_trans)


lemma powi_2_split: "(2::rat) powi (a + b) = 2 powi a * 2 powi b"
  by (simp add: power_int_add)

lemma powi_2_mono: "a \<le> b \<Longrightarrow> (2::rat) powi a \<le> 2 powi b"
  by (simp add: power_int_increasing)

lemma representable_over_ulp:
  assumes "e \<le> k"
  shows "of_int n * (2::rat) powi k = of_int (n * 2 ^ nat (k - e)) * 2 powi e"
proof -
  have "(2::rat) powi k = 2 powi ((k - e) + e)" by simp
  also have "\<dots> = 2 powi (k - e) * 2 powi e" by (rule powi_2_split)
  also have "(2::rat) powi (k - e) = 2 ^ nat (k - e)" using assms by (simp add: power_int_def)
  finally show ?thesis by simp
qed

lemma normal_lower:
  assumes "0 < x" and "- 1074 < max (ilog2 x - 52) (- 1074)"
  shows "2 ^ 52 * (2::rat) powi (max (ilog2 x - 52) (- 1074)) \<le> x"
proof -
  from assms(2) have e: "max (ilog2 x - 52) (- 1074) = ilog2 x - 52" by simp
  have "(2::rat) powi (ilog2 x) = 2 powi (52 + (ilog2 x - 52))" by simp
  also have "\<dots> = 2 powi 52 * 2 powi (ilog2 x - 52)" by (rule powi_2_split)
  finally have "2 ^ 52 * (2::rat) powi (ilog2 x - 52) = 2 powi (ilog2 x)" by simp
  with ilog2_lower [OF assms(1)] e show ?thesis by simp
qed

lemma below_next_binade:
  assumes "k + 1 \<le> e" and "n < 2 ^ 53"
  shows "of_int n * (2::rat) powi k < 2 ^ 52 * 2 powi e"
proof -
  from assms(1) have "(2::rat) powi (k + 1) \<le> 2 powi e" by (rule powi_2_mono)
  then have step: "2 * (2::rat) powi k \<le> 2 powi e" by (simp add: powi_2_split)
  from assms(2) have "(of_int n :: rat) < of_int (2 ^ 53)"
    by (intro of_int_less_iff [THEN iffD2]) simp
  then have "(of_int n :: rat) < 2 ^ 53" by simp
  then have "of_int n * (2::rat) powi k < 2 ^ 53 * 2 powi k"
    by (rule mult_strict_right_mono) simp
  also have "\<dots> = 2 ^ 52 * (2 * 2 powi k)" by simp
  also have "\<dots> \<le> 2 ^ 52 * 2 powi e"
    using step by (rule mult_left_mono) simp
  finally show ?thesis .
qed

lemma double_of_pos_lower:
  assumes c: "c = of_int n * 2 powi k" and k: "- 1074 \<le> k" and n: "0 < n" "n < 2 ^ 53"
    and x: "c \<le> x"
  shows "double_of_pos x = PosInf \<or> (\<exists>y. double_of_pos x = Fin y \<and> c \<le> y)"
proof -
  define e where "e = max (ilog2 x - 52) (- 1074)"
  define m where "m = round_half_even (x / 2 powi e)"
  have cpos: "0 < c" using c n by simp
  with x have xpos: "0 < x" by simp
  have S: "0 < (2::rat) powi e" by simp
  have val: "double_of_pos x = PosInf \<or> double_of_pos x = Fin (of_int m * 2 powi e)"
    by (simp add: double_of_pos_def Let_def e_def m_def int_power_2)
  have "c \<le> of_int m * 2 powi e"
  proof (cases "e \<le> k")
    case True
    define N where "N = n * 2 ^ nat (k - e)"
    have cN: "c = of_int N * 2 powi e"
      unfolding c N_def by (rule representable_over_ulp [OF True])
    from x have "of_int N \<le> x / 2 powi e" using S by (simp add: cN pos_le_divide_eq)
    then have "N \<le> m" unfolding m_def by (rule round_half_even_ge)
    then have "(of_int N :: rat) \<le> of_int m" by (rule of_int_le_iff [THEN iffD2])
    then show ?thesis using S by (simp add: cN)
  next
    case False
    with k have "- 1074 < e" by simp
    with normal_lower [OF xpos] have lo: "2 ^ 52 * (2::rat) powi e \<le> x" by (simp add: e_def)
    then have "of_int (2 ^ 52) \<le> x / 2 powi e" using S by (simp add: pos_le_divide_eq)
    then have "2 ^ 52 \<le> m" unfolding m_def by (rule round_half_even_ge)
    then have "(of_int (2 ^ 52) :: rat) \<le> of_int m" by (rule of_int_le_iff [THEN iffD2])
    then have "(2 ^ 52 :: rat) \<le> of_int m" by simp
    then have big: "2 ^ 52 * (2::rat) powi e \<le> of_int m * 2 powi e"
      by (rule mult_right_mono) simp
    from False have "k + 1 \<le> e" by simp
    from below_next_binade [OF this n(2)] have "c \<le> 2 ^ 52 * 2 powi e"
      unfolding c by simp
    then show ?thesis using big by (rule order_trans)
  qed
  with val show ?thesis by auto
qed


lemma to_double_minus: "to_double (- x) = js_neg (to_double x)"
proof -
  have "js_neg (js_neg v) = v" for v by (cases v) simp_all
  then show ?thesis by (simp add: to_double_def)
qed

lemma to_double_lower:
  assumes "c = of_int n * 2 powi k" and "- 1074 \<le> k" and "0 < n" and "n < 2 ^ 53" and "c \<le> x"
  shows "to_double x = PosInf \<or> (\<exists>y. to_double x = Fin y \<and> c \<le> y)"
proof -
  have "0 < c" using assms(1,3) by simp
  with assms(5) have "0 < x" by simp
  then have "to_double x = double_of_pos x" by (simp add: to_double_def)
  with double_of_pos_lower [OF assms] show ?thesis by simp
qed















section \<open>The odds converter on probabilities\<close>







text \<open>An integer written in full is what the rule of the fewest digits gives.\<close>

lemma integers_in_full:
  "shortest_to_string 100 = show_digits 100"
  "shortest_to_string 292 = show_digits 292"
  "shortest_to_string 9900 = show_digits 9900"
  by code_simp+

text \<open>
  Values at which the rounding of doubles shows: \<open>1 - 0.68\<close> is
  \<open>0.31999999999999995\<close>, and the quotient \<open>-212.50000000000003\<close> is rounded to
  \<open>-213\<close>; large values are printed with the fewest digits that read back, and in
  exponent notation from \<open>10^21\<close> on.
\<close>

lemma probToAmericanOdds_rounds_as_doubles:
  "probToAmericanOdds (to_double (68 / 100)) = ''-213''"
  "probToAmericanOdds (to_double (64 / 1000)) = ''+1462''"
  "probToAmericanOdds (to_double (1 / 10 ^ 20)) = ''+1e+22''"
  "probToAmericanOdds (Fin (1 - 1 / 2 ^ 53)) = ''-900719925474099100''"
  by code_simp+



section \<open>The matcher\<close>

lemma startsWith_iff: "startsWith s t \<longleftrightarrow> (\<exists>r. s = t @ r)"
  by (induction s t rule: startsWith.induct) auto

lemma str_includes_iff: "str_includes s t \<longleftrightarrow> (\<exists>l r. s = l @ t @ r)"
proof (induction s)
  case Nil
  then show ?case by simp
next
  case (Cons d s)
  show ?case
  proof
    assume "str_includes (d # s) t"
    then consider "startsWith (d # s) t" | "str_includes s t" by auto
    then show "\<exists>l r. d # s = l @ t @ r"
    proof cases
      case 1
      then obtain r where "d # s = t @ r" by (auto simp: startsWith_iff)
      then have "d # s = [] @ t @ r" by simp
      then show ?thesis by blast
    next
      case 2
      with Cons obtain l r where "s = l @ t @ r" by blast
      then have "d # s = (d # l) @ t @ r" by simp
      then show ?thesis by blast
    qed
  next
    assume "\<exists>l r. d # s = l @ t @ r"
    then obtain l r where eq: "d # s = l @ t @ r" by blast
    show "str_includes (d # s) t"
    proof (cases l)
      case Nil
      with eq have "startsWith (d # s) t" by (auto simp: startsWith_iff)
      then show ?thesis by simp
    next
      case (Cons e l')
      with eq have "s = l' @ t @ r" by simp
      with Cons.IH have "str_includes s t" by blast
      then show ?thesis by simp
    qed
  qed
qed

lemma find_first_match:
  "find P qs = Some q \<longleftrightarrow>
     (\<exists>i<length qs. qs ! i = q \<and> P q \<and> (\<forall>j<i. \<not> P (qs ! j)))"
  by (auto simp: find_Some_iff)

lemma polymarket_match_examples:
  "find (polymarket_match (nominee_named ''Tom Hanks'')) [\<lparr>name = ''Hanks'', odds = ''+300''\<rparr>]
     = Some \<lparr>name = ''Hanks'', odds = ''+300''\<rparr>"
  "find (polymarket_match (nominee_named ''Anna''))
     [\<lparr>name = ''Anna'', odds = ''-150''\<rparr>, \<lparr>name = ''Annabelle'', odds = ''+300''\<rparr>]
     = Some \<lparr>name = ''Anna'', odds = ''-150''\<rparr>"
  by code_simp+

text \<open>
  Claim C2 asks for the first quote, in the order of the quote list, whose name equals
  the nominee's name, contains it or is contained in it, letter case apart in all three
  tests. \<open>find\<close> returns the first quote that satisfies the predicate
  (\<open>find_first_match\<close>), and the predicates of update-polymarket.js and
  update-kalshi-bafta.js are these three tests. The predicate of part_001 lowers the
  case for the equality only: for the nominee \<open>Tom Hanks\<close> and the single quote
  \<open>HANKS\<close>, whose name is a substring of the nominee's name letter case apart,
  part_001 finds no quote where the two other scripts find it.
\<close>

theorem bulk_match_is_case_sensitive:
  "str_includes (toLowerCase ''Tom Hanks'') (toLowerCase ''HANKS'')
   \<and> find (bulk_match (nominee_named ''Tom Hanks''))
        [\<lparr>name = ''HANKS'', odds = ''+300'', probability = Fin (1 / 4)\<rparr>] = None
   \<and> find (polymarket_match (nominee_named ''Tom Hanks''))
        [\<lparr>name = ''HANKS'', odds = ''+300'', probability = Fin (1 / 4)\<rparr>]
       = Some \<lparr>name = ''HANKS'', odds = ''+300'', probability = Fin (1 / 4)\<rparr>
   \<and> find (kalshi_match (nominee_named ''Tom Hanks''))
        [\<lparr>name = ''HANKS'', odds = ''+300'', probability = Fin (1 / 4)\<rparr>]
       = Some \<lparr>name = ''HANKS'', odds = ''+300'', probability = Fin (1 / 4)\<rparr>"
  by code_simp

section \<open>What a category update writes\<close>

lemma foldl_match_update:
  "foldl (match_update source matches quotes today) us es =
     us @ concat (map (match_update source matches quotes today []) es)"
proof (induction es arbitrary: us)
  case Nil
  then show ?case by simp
next
  case (Cons e es)
  have "match_update source matches quotes today us e =
          us @ match_update source matches quotes today [] e"
    by (simp add: match_update_def split: option.splits)
  with Cons show ?case by simp
qed

lemma gather_updates_concat:
  "gather_updates source matches quotes today ns =
     concat (map (match_update source matches quotes today []) (enumerate 0 ns))"
  by (simp add: gather_updates_def foldl_match_update)

lemma apply_entry_updates:
  "fold apply_patch (match_update source matches quotes today [] (length pre, n)) (pre @ n # post) =
     pre @ updated_nominee source matches quotes today n # post"
  by (simp add: match_update_def updated_nominee_def with_odds_def split: option.splits)

lemma fold_apply_patch_enumerate:
  "fold apply_patch
     (concat (map (match_update source matches quotes today []) (enumerate (length pre) ns)))
     (pre @ ns) =
   pre @ map (updated_nominee source matches quotes today) ns"
proof (induction ns arbitrary: pre)
  case Nil
  then show ?case by simp
next
  case (Cons n ns)
  have "fold apply_patch
     (concat (map (match_update source matches quotes today []) (enumerate (length pre) (n # ns))))
     (pre @ n # ns) =
     fold apply_patch
       (concat (map (match_update source matches quotes today [])
          (enumerate (length (pre @ [updated_nominee source matches quotes today n])) ns)))
       ((pre @ [updated_nominee source matches quotes today n]) @ ns)"
    by (simp add: apply_entry_updates)
  also have "\<dots> = (pre @ [updated_nominee source matches quotes today n]) @
      map (updated_nominee source matches quotes today) ns"
    by (rule Cons.IH)
  finally show ?case by simp
qed

lemma patch_is_map:
  "fold apply_patch (gather_updates source matches quotes today ns) ns =
     map (updated_nominee source matches quotes today) ns"
  using fold_apply_patch_enumerate [of source matches quotes today "[]" ns]
  by (simp add: gather_updates_concat)

lemma gather_updates_empty_iff:
  "gather_updates source matches quotes today ns = [] \<longleftrightarrow>
     (\<forall>n \<in> set ns. find (matches n) quotes = None)"
proof -
  have "gather_updates source matches quotes today ns = [] \<longleftrightarrow>
     (\<forall>e \<in> set (enumerate 0 ns). find (matches (snd e)) quotes = None)"
    by (auto simp: gather_updates_concat match_update_def split: option.splits)
  also have "\<dots> \<longleftrightarrow> (\<forall>n \<in> set (map snd (enumerate 0 ns)). find (matches n) quotes = None)"
    by (simp only: set_map ball_simps)
  finally show ?thesis by simp
qed

lemma updated_nominee_unmatched:
  "find (matches n) quotes = None \<Longrightarrow> updated_nominee source matches quotes today n = n"
  by (simp add: updated_nominee_def)

lemma map_updated_nominee_unmatched:
  "\<forall>n \<in> set ns. find (matches n) quotes = None \<Longrightarrow>
     map (updated_nominee source matches quotes today) ns = ns"
  by (induction ns) (simp_all add: updated_nominee_unmatched)

lemma updated_nominee_frame:
  "nominee_name (updated_nominee source matches quotes today n) = nominee_name n"
  "other_fields (updated_nominee source matches quotes today n) = other_fields n"
  "k \<noteq> source \<Longrightarrow> nominee_odds (updated_nominee source matches quotes today n) k = nominee_odds n k"
  by (simp_all add: updated_nominee_def with_odds_def split: option.splits)

lemma updated_nominee_matched:
  "find (matches n) quotes = Some q \<Longrightarrow>
     nominee_odds (updated_nominee source matches quotes today n) source = Some (odds q) \<and>
     lastUpdated (updated_nominee source matches quotes today n) = Some today"
  by (simp add: updated_nominee_def with_odds_def)

lemma stored_patch_category:
  "stored (patch_category source matches quotes firebasePath today fb) =
     (case stored fb (nominees_path firebasePath) of
        None \<Rightarrow> stored fb
      | Some ns \<Rightarrow>
          (stored fb)(nominees_path firebasePath \<mapsto> map (updated_nominee source matches quotes today) ns))"
proof (cases "stored fb (nominees_path firebasePath)")
  case None
  then show ?thesis by (simp add: patch_category_def)
next
  case (Some ns)
  show ?thesis
  proof (cases "quotes = [] \<or> gather_updates source matches quotes today ns = []")
    case True
    then have "\<forall>n \<in> set ns. find (matches n) quotes = None"
      by (auto simp: gather_updates_empty_iff)
    then have "map (updated_nominee source matches quotes today) ns = ns"
      by (rule map_updated_nominee_unmatched)
    moreover have "patch_category source matches quotes firebasePath today fb = fb"
      using True Some by (auto simp: patch_category_def)
    ultimately show ?thesis using Some by (simp add: fun_upd_idem)
  next
    case False
    then show ?thesis using Some
      by (simp add: patch_category_def ref_update_def patch_is_map)
  qed
qed


lemma match_update_entries:
  assumes "(k, v) \<in> set (match_update source matches quotes today [] (i, n))"
  shows "\<exists>q. find (matches n) quotes = Some q \<and>
           ((k = OddsKey i source \<and> v = odds q) \<or> (k = LastUpdatedKey i \<and> v = today))"
proof (cases "find (matches n) quotes")
  case None
  with assms show ?thesis by (simp add: match_update_def)
next
  case (Some q)
  with assms show ?thesis by (auto simp: match_update_def)
qed

lemma gather_updates_entries:
  assumes "(k, v) \<in> set (gather_updates source matches quotes today ns)"
  shows "\<exists>i q. i < length ns \<and> find (matches (ns ! i)) quotes = Some q \<and>
           ((k = OddsKey i source \<and> v = odds q) \<or> (k = LastUpdatedKey i \<and> v = today))"
proof -
  from assms obtain e where e: "e \<in> set (enumerate 0 ns)"
    and kv: "(k, v) \<in> set (match_update source matches quotes today [] e)"
    by (auto simp: gather_updates_concat)
  obtain i n where ein: "e = (i, n)" by (cases e)
  with e have i: "i < length ns" and n: "n = ns ! i"
    by (auto simp: in_set_enumerate_eq)
  from match_update_entries [OF kv [unfolded ein]] i n show ?thesis by blast
qed

lemma enumerate_keys_from:
  assumes "kk \<in> fst ` set (concat (map (match_update source matches quotes today []) (enumerate j ns)))"
  shows "\<exists>i\<ge>j. kk = OddsKey i source \<or> kk = LastUpdatedKey i"
proof -
  from assms obtain v e where e: "e \<in> set (enumerate j ns)"
    and kv: "(kk, v) \<in> set (match_update source matches quotes today [] e)"
    by auto
  obtain i n where ein: "e = (i, n)" by (cases e)
  with e have "j \<le> i" by (auto simp: in_set_enumerate_eq)
  with match_update_entries [OF kv [unfolded ein]] show ?thesis by blast
qed

lemma distinct_enumerate_keys:
  "distinct (map fst (concat (map (match_update source matches quotes today []) (enumerate j ns))))"
proof (induction ns arbitrary: j)
  case Nil
  then show ?case by simp
next
  case (Cons n ns)
  have here: "distinct (map fst (match_update source matches quotes today [] (j, n)))"
    by (simp add: match_update_def split: option.splits)
  have apart: "fst ` set (match_update source matches quotes today [] (j, n)) \<inter>
          fst ` set (concat (map (match_update source matches quotes today []) (enumerate (Suc j) ns))) = {}"
  proof (rule ccontr)
    assume "\<not> ?thesis"
    then obtain kk where a: "kk \<in> fst ` set (match_update source matches quotes today [] (j, n))"
      and b: "kk \<in> fst ` set (concat (map (match_update source matches quotes today []) (enumerate (Suc j) ns)))"
      by blast
    from a have "kk = OddsKey j source \<or> kk = LastUpdatedKey j"
      by (auto simp: match_update_def split: option.splits)
    moreover from enumerate_keys_from [OF b] obtain i where "Suc j \<le> i"
      "kk = OddsKey i source \<or> kk = LastUpdatedKey i" by blast
    ultimately show False by auto
  qed
  from here apart Cons.IH [of "Suc j"] show ?case
    by (simp add: image_Un)
qed

lemma distinct_gather_updates:
  "distinct (map fst (gather_updates source matches quotes today ns))"
  by (simp add: gather_updates_concat distinct_enumerate_keys)

lemma written_patch_category:
  "written (patch_category source matches quotes firebasePath today fb) = written fb \<or>
   (\<exists>ns. stored fb (nominees_path firebasePath) = Some ns \<and>
      gather_updates source matches quotes today ns \<noteq> [] \<and>
      written (patch_category source matches quotes firebasePath today fb) =
        written fb @ [UpdateAt (nominees_path firebasePath) (gather_updates source matches quotes today ns)])"
  by (auto simp: patch_category_def ref_update_def Let_def split: option.splits)


lemma stored_updateCategory_bulk:
  "stored (updateCategory_bulk search path allMarkets today fb) =
     (case stored fb (nominees_path path) of
        None \<Rightarrow> stored fb
      | Some ns \<Rightarrow>
          (stored fb)(nominees_path path \<mapsto>
             map (updated_nominee ''polymarket'' bulk_match (extractNominees allMarkets search) today) ns))"
proof (cases "stored fb (nominees_path path)")
  case None
  then show ?thesis by (simp add: updateCategory_bulk_def Let_def)
next
  case (Some ns)
  show ?thesis
  proof (cases "extractNominees allMarkets search = [] \<or> ns = []")
    case True
    then have "map (updated_nominee ''polymarket'' bulk_match (extractNominees allMarkets search) today) ns = ns"
      by (auto intro: map_updated_nominee_unmatched)
    moreover have "updateCategory_bulk search path allMarkets today fb = fb"
      using True Some by (auto simp: updateCategory_bulk_def Let_def)
    ultimately show ?thesis using Some by (simp add: fun_upd_idem)
  next
    case False
    then show ?thesis using Some
      by (simp add: updateCategory_bulk_def ref_set_def Let_def split: list.splits)
  qed
qed

lemma updated_nominee_cases:
  "(case find (matches n) quotes of
      None \<Rightarrow> updated_nominee source matches quotes today n = n
    | Some q \<Rightarrow> updated_nominee source matches quotes today n =
        n\<lparr>nominee_odds := (nominee_odds n)(source \<mapsto> odds q), lastUpdated := Some today\<rparr>)"
  by (simp add: updated_nominee_def with_odds_def split: option.splits)

lemma map_updated_nominee_frame:
  assumes "after = map (updated_nominee source matches quotes today) ns"
  shows "length after = length ns \<and>
    (\<forall>i<length ns.
       nominee_name (after ! i) = nominee_name (ns ! i) \<and>
       other_fields (after ! i) = other_fields (ns ! i) \<and>
       (\<forall>k. k \<noteq> source \<longrightarrow> nominee_odds (after ! i) k = nominee_odds (ns ! i) k) \<and>
       (case find (matches (ns ! i)) quotes of
          None \<Rightarrow> after ! i = ns ! i
        | Some q \<Rightarrow> after ! i =
            (ns ! i)\<lparr>nominee_odds := (nominee_odds (ns ! i))(source \<mapsto> odds q),
                     lastUpdated := Some today\<rparr>))"
proof -
  have "case find (matches (ns ! i)) quotes of
          None \<Rightarrow> after ! i = ns ! i
        | Some q \<Rightarrow> after ! i =
            (ns ! i)\<lparr>nominee_odds := (nominee_odds (ns ! i))(source \<mapsto> odds q),
                     lastUpdated := Some today\<rparr>" if "i < length ns" for i
    using that assms
    by (simp add: updated_nominee_def with_odds_def split: option.splits)
  then show ?thesis using assms by (simp add: updated_nominee_frame)
qed

lemma written_updateCategory_bulk:
  "written (updateCategory_bulk search path allMarkets today fb) = written fb \<or>
   (\<exists>ns. stored fb (nominees_path path) = Some ns \<and>
      written (updateCategory_bulk search path allMarkets today fb) =
        written fb @ [SetAt (nominees_path path)
          (map (updated_nominee ''polymarket'' bulk_match (extractNominees allMarkets search) today) ns)])"
  by (auto simp: updateCategory_bulk_def ref_set_def Let_def split: option.splits list.splits)

text \<open>
  Claim C3. A category update, patching (update-polymarket.js) or replacing
  (part_001), changes nothing when no nominee list is stored at the path, and never
  changes another path. When a list is stored, the list stored afterwards has the same
  length and, position by position, the same name, the same other fields and the same
  odds of every other source; a nominee without a matching quote is unchanged, and a
  nominee with one differs from the stored record only in \<open>odds.polymarket\<close> (the
  odds of the one quote \<open>find\<close> returns) and \<open>lastUpdated\<close>. The patch writes
  at most once, with distinct keys that are \<open>odds/polymarket\<close> or \<open>lastUpdated\<close>
  of matched nominees only.
\<close>

theorem category_update_writes_only_odds:
  fixes fb :: "'a firebase"
  shows
  "(stored fb (nominees_path firebasePath) = None \<longrightarrow>
      updateCategory net slug firebasePath today fb = fb \<and>
      updateCategory_bulk search firebasePath allMarkets today fb = fb)
   \<and> (\<forall>path. path \<noteq> nominees_path firebasePath \<longrightarrow>
        stored (updateCategory net slug firebasePath today fb) path = stored fb path \<and>
        stored (updateCategory_bulk search firebasePath allMarkets today fb) path = stored fb path)
   \<and> (\<forall>ns. stored fb (nominees_path firebasePath) = Some ns \<longrightarrow>
        (\<exists>after.
           stored (updateCategory net slug firebasePath today fb) (nominees_path firebasePath) = Some after \<and>
           length after = length ns \<and>
           (\<forall>i<length ns.
              nominee_name (after ! i) = nominee_name (ns ! i) \<and>
              other_fields (after ! i) = other_fields (ns ! i) \<and>
              (\<forall>k. k \<noteq> ''polymarket'' \<longrightarrow> nominee_odds (after ! i) k = nominee_odds (ns ! i) k) \<and>
              (case find (polymarket_match (ns ! i)) (fetchPolymarketData net slug) of
                 None \<Rightarrow> after ! i = ns ! i
               | Some q \<Rightarrow> after ! i =
                   (ns ! i)\<lparr>nominee_odds := (nominee_odds (ns ! i))(''polymarket'' \<mapsto> odds q),
                            lastUpdated := Some today\<rparr>)))
        \<and> (written (updateCategory net slug firebasePath today fb) = written fb \<or>
            (\<exists>us. written (updateCategory net slug firebasePath today fb) =
                     written fb @ [UpdateAt (nominees_path firebasePath) us] \<and>
                   distinct (map fst us) \<and>
                   (\<forall>(k, v) \<in> set us. \<exists>i<length ns.
                      find (polymarket_match (ns ! i)) (fetchPolymarketData net slug) \<noteq> None \<and>
                      (k = OddsKey i ''polymarket'' \<or> k = LastUpdatedKey i))))
        \<and> (\<exists>after.
           stored (updateCategory_bulk search firebasePath allMarkets today fb) (nominees_path firebasePath)
             = Some after \<and>
           length after = length ns \<and>
           (\<forall>i<length ns.
              nominee_name (after ! i) = nominee_name (ns ! i) \<and>
              other_fields (after ! i) = other_fields (ns ! i) \<and>
              (\<forall>k. k \<noteq> ''polymarket'' \<longrightarrow> nominee_odds (after ! i) k = nominee_odds (ns ! i) k) \<and>
              (case find (bulk_match (ns ! i)) (extractNominees allMarkets search) of
                 None \<Rightarrow> after ! i = ns ! i
               | Some q \<Rightarrow> after ! i =
                   (ns ! i)\<lparr>nominee_odds := (nominee_odds (ns ! i))(''polymarket'' \<mapsto> odds q),
                            lastUpdated := Some today\<rparr>)))
        \<and> (written (updateCategory_bulk search firebasePath allMarkets today fb) = written fb \<or>
            (\<exists>after. stored (updateCategory_bulk search firebasePath allMarkets today fb)
                        (nominees_path firebasePath) = Some after \<and>
                     written (updateCategory_bulk search firebasePath allMarkets today fb) =
                       written fb @ [SetAt (nominees_path firebasePath) after])))"
  (is "?absent \<and> ?elsewhere \<and> ?present")
proof (intro conjI)
  show ?absent
    by (simp add: updateCategory_def patch_category_def updateCategory_bulk_def Let_def)
  show ?elsewhere
    by (simp add: updateCategory_def stored_patch_category stored_updateCategory_bulk
        split: option.splits)
  show ?present
  proof (intro allI impI)
    fix ns
    assume ns: "stored fb (nominees_path firebasePath) = Some ns"
    let ?quotes = "fetchPolymarketData net slug"
    let ?patched = "map (updated_nominee ''polymarket'' polymarket_match ?quotes today) ns"
    let ?replaced = "map (updated_nominee ''polymarket'' bulk_match (extractNominees allMarkets search) today) ns"
    have p1: "stored (updateCategory net slug firebasePath today fb) (nominees_path firebasePath)
                = Some ?patched"
      using ns by (simp add: updateCategory_def stored_patch_category)
    have p2: "stored (updateCategory_bulk search firebasePath allMarkets today fb) (nominees_path firebasePath)
                = Some ?replaced"
      using ns by (simp add: stored_updateCategory_bulk)
    note f1 = map_updated_nominee_frame [OF refl, of "''polymarket''" polymarket_match ?quotes today ns]
    note f2 = map_updated_nominee_frame [OF refl, of "''polymarket''" bulk_match
                "extractNominees allMarkets search" today ns]
    have w1: "written (updateCategory net slug firebasePath today fb) = written fb \<or>
            (\<exists>us. written (updateCategory net slug firebasePath today fb) =
                     written fb @ [UpdateAt (nominees_path firebasePath) us] \<and>
                   distinct (map fst us) \<and>
                   (\<forall>(k, v) \<in> set us. \<exists>i<length ns.
                      find (polymarket_match (ns ! i)) ?quotes \<noteq> None \<and>
                      (k = OddsKey i ''polymarket'' \<or> k = LastUpdatedKey i)))"
    proof -
      let ?us = "gather_updates ''polymarket'' polymarket_match ?quotes today ns"
      have keys: "\<forall>(k, v) \<in> set ?us. \<exists>i<length ns.
                      find (polymarket_match (ns ! i)) ?quotes \<noteq> None \<and>
                      (k = OddsKey i ''polymarket'' \<or> k = LastUpdatedKey i)"
      proof (clarify)
        fix k v assume "(k, v) \<in> set ?us"
        from gather_updates_entries [OF this] 
        show "\<exists>i<length ns. find (polymarket_match (ns ! i)) ?quotes \<noteq> None \<and>
                      (k = OddsKey i ''polymarket'' \<or> k = LastUpdatedKey i)"
          by auto
      qed
      from written_patch_category [of "''polymarket''" polymarket_match ?quotes firebasePath today fb]
      show ?thesis
      proof
        assume "written (patch_category ''polymarket'' polymarket_match ?quotes firebasePath today fb) = written fb"
        then show ?thesis by (simp add: updateCategory_def)
      next
        assume "\<exists>ns. stored fb (nominees_path firebasePath) = Some ns \<and>
           gather_updates ''polymarket'' polymarket_match ?quotes today ns \<noteq> [] \<and>
           written (patch_category ''polymarket'' polymarket_match ?quotes firebasePath today fb) =
           written fb @ [UpdateAt (nominees_path firebasePath)
                 (gather_updates ''polymarket'' polymarket_match ?quotes today ns)]"
        with ns have "written (updateCategory net slug firebasePath today fb) =
                     written fb @ [UpdateAt (nominees_path firebasePath) ?us]"
          by (auto simp: updateCategory_def)
        with keys distinct_gather_updates [of "''polymarket''" polymarket_match ?quotes today ns]
        show ?thesis by blast
      qed
    qed
    have w2: "written (updateCategory_bulk search firebasePath allMarkets today fb) = written fb \<or>
            (\<exists>after. stored (updateCategory_bulk search firebasePath allMarkets today fb)
                        (nominees_path firebasePath) = Some after \<and>
                     written (updateCategory_bulk search firebasePath allMarkets today fb) =
                       written fb @ [SetAt (nominees_path firebasePath) after])"
      using written_updateCategory_bulk [of search firebasePath allMarkets today fb] ns p2
      by auto
    from p1 f1 have s1: "\<exists>after.
           stored (updateCategory net slug firebasePath today fb) (nominees_path firebasePath) = Some after \<and>
           length after = length ns \<and>
           (\<forall>i<length ns.
              nominee_name (after ! i) = nominee_name (ns ! i) \<and>
              other_fields (after ! i) = other_fields (ns ! i) \<and>
              (\<forall>k. k \<noteq> ''polymarket'' \<longrightarrow> nominee_odds (after ! i) k = nominee_odds (ns ! i) k) \<and>
              (case find (polymarket_match (ns ! i)) (fetchPolymarketData net slug) of
                 None \<Rightarrow> after ! i = ns ! i
               | Some q \<Rightarrow> after ! i =
                   (ns ! i)\<lparr>nominee_odds := (nominee_odds (ns ! i))(''polymarket'' \<mapsto> odds q),
                            lastUpdated := Some today\<rparr>))"
      by (intro exI [of _ ?patched] conjI) blast+
    from p2 f2 have s2: "\<exists>after.
           stored (updateCategory_bulk search firebasePath allMarkets today fb) (nominees_path firebasePath)
             = Some after \<and>
           length after = length ns \<and>
           (\<forall>i<length ns.
              nominee_name (after ! i) = nominee_name (ns ! i) \<and>
              other_fields (after ! i) = other_fields (ns ! i) \<and>
              (\<forall>k. k \<noteq> ''polymarket'' \<longrightarrow> nominee_odds (after ! i) k = nominee_odds (ns ! i) k) \<and>
              (case find (bulk_match (ns ! i)) (extractNominees allMarkets search) of
                 None \<Rightarrow> after ! i = ns ! i
               | Some q \<Rightarrow> after ! i =
                   (ns ! i)\<lparr>nominee_odds := (nominee_odds (ns ! i))(''polymarket'' \<mapsto> odds q),
                            lastUpdated := Some today\<rparr>))"
      by (intro exI [of _ ?replaced] conjI) blast+
    from s1 w1 s2 w2 show "(\<exists>after.
           stored (updateCategory net slug firebasePath today fb) (nominees_path firebasePath) = Some after \<and>
           length after = length ns \<and>
           (\<forall>i<length ns.
              nominee_name (after ! i) = nominee_name (ns ! i) \<and>
              other_fields (after ! i) = other_fields (ns ! i) \<and>
              (\<forall>k. k \<noteq> ''polymarket'' \<longrightarrow> nominee_odds (after ! i) k = nominee_odds (ns ! i) k) \<and>
              (case find (polymarket_match (ns ! i)) (fetchPolymarketData net slug) of
                 None \<Rightarrow> after ! i = ns ! i
               | Some q \<Rightarrow> after ! i =
                   (ns ! i)\<lparr>nominee_odds := (nominee_odds (ns ! i))(''polymarket'' \<mapsto> odds q),
                            lastUpdated := Some today\<rparr>)))
        \<and> (written (updateCategory net slug firebasePath today fb) = written fb \<or>
            (\<exists>us. written (updateCategory net slug firebasePath today fb) =
                     written fb @ [UpdateAt (nominees_path firebasePath) us] \<and>
                   distinct (map fst us) \<and>
                   (\<forall>(k, v) \<in> set us. \<exists>i<length ns.
                      find (polymarket_match (ns ! i)) (fetchPolymarketData net slug) \<noteq> None \<and>
                      (k = OddsKey i ''polymarket'' \<or> k = LastUpdatedKey i))))
        \<and> (\<exists>after.
           stored (updateCategory_bulk search firebasePath allMarkets today fb) (nominees_path firebasePath)
             = Some after \<and>
           length after = length ns \<and>
           (\<forall>i<length ns.
              nominee_name (after ! i) = nominee_name (ns ! i) \<and>
              other_fields (after ! i) = other_fields (ns ! i) \<and>
              (\<forall>k. k \<noteq> ''polymarket'' \<longrightarrow> nominee_odds (after ! i) k = nominee_odds (ns ! i) k) \<and>
              (case find (bulk_match (ns ! i)) (extractNominees allMarkets search) of
                 None \<Rightarrow> after ! i = ns ! i
               | Some q \<Rightarrow> after ! i =
                   (ns ! i)\<lparr>nominee_odds := (nominee_odds (ns ! i))(''polymarket'' \<mapsto> odds q),
                            lastUpdated := Some today\<rparr>)))
        \<and> (written (updateCategory_bulk search firebasePath allMarkets today fb) = written fb \<or>
            (\<exists>after. stored (updateCategory_bulk search firebasePath allMarkets today fb)
                        (nominees_path firebasePath) = Some after \<and>
                     written (updateCategory_bulk search firebasePath allMarkets today fb) =
                       written fb @ [SetAt (nominees_path firebasePath) after]))"
      by (intro conjI)
  qed
qed

theorem category_update_writes_only_odds_witness:
  "stored sample_store (nominees_path ''oscars/best-picture'') = Some [sample_nominee]
   \<and> stored (updateCategory (events_with [oppenheimer_market]) ''oscars-2026-best-picture-winner''
               ''oscars/best-picture'' ''2026-03-15'' sample_store)
        (nominees_path ''oscars/best-picture'') =
       Some [sample_nominee\<lparr>nominee_odds := (nominee_odds sample_nominee)(''polymarket'' \<mapsto> ''-456''),
                             lastUpdated := Some ''2026-03-15''\<rparr>]"
proof -
  let ?fb' = "updateCategory (events_with [oppenheimer_market]) ''oscars-2026-best-picture-winner''
               ''oscars/best-picture'' ''2026-03-15'' sample_store"
  have st: "stored sample_store (nominees_path ''oscars/best-picture'') = Some [sample_nominee]"
    by (simp add: sample_store_def)
  have quotes: "fetchPolymarketData (events_with [oppenheimer_market]) ''oscars-2026-best-picture-winner''
                 = [\<lparr>name = ''Oppenheimer'', odds = ''-456''\<rparr>]"
    by code_simp
  have m: "polymarket_match sample_nominee \<lparr>name = ''Oppenheimer'', odds = ''-456''\<rparr>"
    by code_simp
  have fd: "find (polymarket_match sample_nominee)
              (fetchPolymarketData (events_with [oppenheimer_market]) ''oscars-2026-best-picture-winner'')
            = Some \<lparr>name = ''Oppenheimer'', odds = ''-456''\<rparr>"
    by (simp add: quotes m)
  note frame = category_update_writes_only_odds [of sample_store "''oscars/best-picture''"
      "events_with [oppenheimer_market]" "''oscars-2026-best-picture-winner''" "''2026-03-15''",
      THEN conjunct2, THEN conjunct2, THEN spec, THEN mp, OF st, THEN conjunct1]
  then obtain after where a: "stored ?fb' (nominees_path ''oscars/best-picture'') = Some after"
    and l: "length after = length [sample_nominee]"
    and f: "\<forall>i<length [sample_nominee].
              nominee_name (after ! i) = nominee_name ([sample_nominee] ! i) \<and>
              other_fields (after ! i) = other_fields ([sample_nominee] ! i) \<and>
              (\<forall>k. k \<noteq> ''polymarket'' \<longrightarrow>
                 nominee_odds (after ! i) k = nominee_odds ([sample_nominee] ! i) k) \<and>
              (case find (polymarket_match ([sample_nominee] ! i))
                 (fetchPolymarketData (events_with [oppenheimer_market]) ''oscars-2026-best-picture-winner'') of
                 None \<Rightarrow> after ! i = [sample_nominee] ! i
               | Some q \<Rightarrow> after ! i =
                   ([sample_nominee] ! i)\<lparr>nominee_odds := (nominee_odds ([sample_nominee] ! i))(''polymarket'' \<mapsto> odds q),
                            lastUpdated := Some ''2026-03-15''\<rparr>)"
    by (elim exE conjE)
  from f have "after ! 0 = sample_nominee\<lparr>nominee_odds := (nominee_odds sample_nominee)(''polymarket'' \<mapsto> ''-456''),
                             lastUpdated := Some ''2026-03-15''\<rparr>"
    by (simp add: fd)
  moreover from l have "after = [after ! 0]"
    by (cases after) simp_all
  ultimately show ?thesis using st a by simp
qed

section \<open>Transport failures\<close>

lemma transport_failure_by_slug:
  assumes "r = NetworkFailure \<or> r = Response ok EmptyBody \<or> r = Response ok InvalidJson"
  shows "fetchPolymarketData (\<lambda>url. r) slug = []"
    and "fetchCategory (\<lambda>url. r) slug = None"
    and "fetchPolymarketData_json (\<lambda>url. r) slug = []"
  using assms
  by (auto simp: fetchPolymarketData_def fetchPolymarketData_try_def fetchCategory_def
      fetchCategory_try_def fetchPolymarketData_json_def fetchPolymarketData_json_try_def)

lemma transport_failure_kalshi:
  assumes "r = NetworkFailure \<or> r = Response False b \<or> r = Response ok EmptyBody
           \<or> r = Response ok InvalidJson"
  shows "fetchKalshiData (\<lambda>url. r) seriesTicker = []"
  using assms by (auto simp: fetchKalshiData_def fetchKalshiData_try_def)

lemma http_error_fetchCategory: "fetchCategory (\<lambda>url. Response False b) slug = None"
  by (simp add: fetchCategory_def fetchCategory_try_def)

lemma transport_failure_bulk:
  assumes "net 0 = NetworkFailure \<or> net 0 = Response False b \<or> net 0 = Response True EmptyBody
           \<or> net 0 = Response True InvalidJson"
  shows "fetchAllOscarsMarkets net = []"
  using assms
  by (auto simp: fetchAllOscarsMarkets_def pagination.simps [of net 0] fetch_page_def)

text \<open>
  Claim C4 asks every adapter for an empty result on a network error, a status that is
  not a success, and an empty or unparseable body. The lemmas above give that for the
  network error and the bodies in every adapter, and for the status in
  \<open>fetchCategory\<close>, \<open>fetchKalshiData\<close> and \<open>fetchAllOscarsMarkets\<close>, which
  test \<open>response.ok\<close>. \<open>fetchPolymarketData\<close> of update-polymarket.js does not
  test it: on a response whose status is not a success and whose body holds an event,
  it returns the quotes of that body, where \<open>fetchCategory\<close> returns \<open>null\<close>.
\<close>

theorem fetchPolymarketData_ignores_status:
  "fetchPolymarketData
     (\<lambda>url. Response False (Json (Events [\<lparr>markets = Some [oppenheimer_market]\<rparr>])))
     ''oscars-2026-best-picture-winner'' = [\<lparr>name = ''Oppenheimer'', odds = ''-456''\<rparr>]
   \<and> fetchCategory
     (\<lambda>url. Response False (Json (Events [\<lparr>markets = Some [oppenheimer_market]\<rparr>])))
     ''oscars-2026-best-picture-winner'' = None"
  by code_simp

section \<open>The placeholder denylist\<close>

lemma collect_quotes_names:
  assumes "q \<in> set (collect_quotes acc ms)"
  shows "q \<in> set acc \<or> (\<exists>m \<in> set ms. market_quote m = Inr (Some q))"
  using assms
  by (induction acc ms rule: collect_quotes.induct) (auto split: sum.splits option.splits)

lemma market_quote_not_placeholder:
  assumes "market_quote m = Inr (Some q)"
  shows "\<not> generic_placeholder (name q)"
proof (cases "outcomePrices m")
  case (Decoded prices)
  with assms show ?thesis
    by (simp add: market_quote_def Let_def split: if_splits) auto
qed (use assms in \<open>simp_all add: market_quote_def\<close>)

lemma fetchPolymarketData_try_quotes:
  assumes "fetchPolymarketData_try r = Inr qs"
  shows "qs = [] \<or> (\<exists>ms. qs = collect_quotes [] ms)"
proof (cases r)
  case NetworkFailure
  with assms show ?thesis by (simp add: fetchPolymarketData_try_def)
next
  case (Response ok b)
  show ?thesis
  proof (cases b)
    case (Json d)
    show ?thesis
    proof (cases d)
      case NotArray
      with assms Response Json show ?thesis by (simp add: fetchPolymarketData_try_def)
    next
      case (Events evs)
      show ?thesis
      proof (cases evs)
        case Nil
        with assms Response Json Events show ?thesis by (simp add: fetchPolymarketData_try_def)
      next
        case (Cons ev evs')
        with assms Response Json Events show ?thesis
          by (cases "markets ev") (auto simp: fetchPolymarketData_try_def)
      qed
    qed
  qed (use assms Response in \<open>simp_all add: fetchPolymarketData_try_def\<close>)
qed

lemma fetchPolymarketData_no_placeholder:
  assumes "q \<in> set (fetchPolymarketData net slug)"
  shows "\<not> generic_placeholder (name q)"
proof (cases "fetchPolymarketData_try (net (events_url slug))")
  case (Inl e)
  with assms show ?thesis by (simp add: fetchPolymarketData_def)
next
  case (Inr qs)
  with assms have "q \<in> set qs" by (simp add: fetchPolymarketData_def)
  with fetchPolymarketData_try_quotes [OF Inr] obtain ms where "q \<in> set (collect_quotes [] ms)"
    by auto
  from collect_quotes_names [OF this] obtain m where "market_quote m = Inr (Some q)"
    by auto
  then show ?thesis by (rule market_quote_not_placeholder)
qed

lemma collect_category_names:
  assumes "q \<in> set (collect_category acc ms)"
  shows "q \<in> set acc \<or> (\<exists>m \<in> set ms. category_quote m = Inr (Some q))"
  using assms
  by (induction acc ms rule: collect_category.induct) (auto split: sum.splits option.splits)

lemma category_quote_not_placeholder:
  assumes "category_quote m = Inr (Some q)"
  shows "\<not> generic_placeholder (name q)"
proof -
  obtain os prices where "parsed_or_empty (outcomes m) = Inr os"
    and "parsed_or_empty (outcomePrices m) = Inr prices"
    using assms by (auto simp: category_quote_def split: sum.splits)
  with assms show ?thesis
    by (simp add: category_quote_def Let_def split: if_splits) auto
qed

lemma set_insert_by_probability:
  "set (insert_by_probability a bs) = insert a (set bs)"
  by (induction bs) auto

lemma set_sort_by_probability: "set (sort_by_probability qs) = set qs"
  by (induction qs) (simp_all add: sort_by_probability_def set_insert_by_probability)

lemma extractNominees_no_placeholder:
  assumes "q \<in> set (extractNominees ms categorySearch)"
  shows "\<not> generic_placeholder (name q)"
proof -
  from assms obtain cms where "q \<in> set (collect_category [] cms)"
    by (auto simp: extractNominees_def Let_def set_sort_by_probability split: if_splits)
  from collect_category_names [OF this] obtain m where "category_quote m = Inr (Some q)"
    by auto
  then show ?thesis by (rule category_quote_not_placeholder)
qed

lemma placeholder_examples:
  "generic_placeholder ''Other''" "generic_placeholder ''Movie A''" "generic_placeholder ''Actor B''"
  "generic_placeholder ''actress z''" "\<not> generic_placeholder ''Dune: Part Two''"
  "other_or_film ''Other''" "other_or_film ''Film C''" "\<not> other_or_film ''Movie A''"
  by code_simp+

lemma dune_is_retained:
  "fetchPolymarketData (events_with [movie_a_market, dune_market]) ''oscars-2026-best-picture-winner''
     = [\<lparr>name = ''Dune: Part Two'', odds = ''+900''\<rparr>]"
  "extractNominees [movie_a_market, dune_market] ''Oscars 2026: Best Picture Winner''
     = [\<lparr>name = ''Dune: Part Two'', odds = ''+900'', probability = to_double (1 / 10)\<rparr>]"
  by code_simp+

text \<open>
  Claim C5 asks the by-slug and bulk adapters to leave out a market named \<open>Other\<close>,
  \<open>Movie A\<close> or another prefix with one letter, and to keep \<open>Dune: Part Two\<close>.
  \<open>fetchPolymarketData\<close> of update-polymarket.js and \<open>extractNominees\<close> do so
  (lemmas above). \<open>fetchCategory\<close> tests \<open>/^(Other|Film [A-Z])$/i\<close> only and
  returns the quote of \<open>Movie A\<close>; the second script of part_000 returns no quote at
  all, so it does not keep \<open>Dune: Part Two\<close>.
\<close>

theorem fetchCategory_keeps_movie_placeholder:
  "fetchCategory (events_with [movie_a_market, dune_market]) ''oscars-2026-best-picture-winner''
     = Some [\<lparr>name = ''Movie A'', odds = ''+9900'', probability = to_double (1 / 100)\<rparr>,
             \<lparr>name = ''Dune: Part Two'', odds = ''+900'', probability = to_double (1 / 10)\<rparr>]
   \<and> fetchPolymarketData_json (events_with [movie_a_market, dune_market])
        ''oscars-2026-best-picture-winner'' = []"
  by code_simp

section \<open>Pagination of the bulk search\<close>

lemma pagination_requests:
  "\<exists>k. 1 \<le> k \<and> k \<le> 1 + (499 - offset) div 100 \<and>
       snd (pagination net offset allMarkets requested) =
         requested @ map (\<lambda>i. offset + i * 100) [0..<k]"
proof (induction net offset allMarkets requested rule: pagination.induct)
  case (1 net offset allMarkets requested)
  show ?case
  proof (cases "fetch_page (net offset) allMarkets")
    case (Leave res)
    then have "snd (pagination net offset allMarkets requested) = requested @ map (\<lambda>i. offset + i * 100) [0..<1]"
      by (simp add: pagination.simps)
    then show ?thesis by (intro exI [of _ 1]) simp
  next
    case (Continue gathered)
    show ?thesis
    proof (cases "offset + limit \<ge> 500")
      case True
      with Continue have "snd (pagination net offset allMarkets requested) = requested @ map (\<lambda>i. offset + i * 100) [0..<1]"
        by (simp add: pagination.simps)
      then show ?thesis by (intro exI [of _ 1]) simp
    next
      case False
      from "1.IH" [OF Continue False] obtain k where
        k: "1 \<le> k" "k \<le> 1 + (499 - (offset + limit)) div 100"
        and eq: "snd (pagination net (offset + limit) gathered (requested @ [offset])) =
              (requested @ [offset]) @ map (\<lambda>i. offset + limit + i * 100) [0..<k]"
        by blast
      have "snd (pagination net offset allMarkets requested) =
              snd (pagination net (offset + limit) gathered (requested @ [offset]))"
        using Continue False by (subst pagination.simps) simp
      also have "\<dots> = requested @ map (\<lambda>i. offset + i * 100) [0..<Suc k]"
        unfolding eq by (simp add: upt_rec [of 0 "Suc k"] map_Suc_upt [symmetric] limit_def del: upt_Suc)
      finally have res: "snd (pagination net offset allMarkets requested) =
          requested @ map (\<lambda>i. offset + i * 100) [0..<Suc k]" .
      have "Suc k \<le> 1 + (499 - offset) div 100"
        using k(2) False by (simp add: limit_def)
      with res show ?thesis by (intro exI [of _ "Suc k"]) simp
    qed
  qed
qed


lemma listing_requests_prefix:
  "\<exists>k. 1 \<le> k \<and> k \<le> 5 \<and> listing_requests net = map (\<lambda>i. i * 100) [0..<k]"
proof -
  from pagination_requests [of 0 net "[]" "[]"] obtain k where
    "1 \<le> k" "k \<le> 1 + (499 - 0) div 100"
    "snd (pagination net 0 [] []) = [] @ map (\<lambda>i. 0 + i * 100) [0..<k]"
    by blast
  then show ?thesis
    by (intro exI [of _ k]) (simp add: listing_requests_def)
qed

lemma two_pages:
  assumes "net 0 = Response True (Json (Markets ms1))" and "length ms1 = 100"
    and "net 100 = Response True (Json (Markets ms2))" and "length ms2 = 40"
  shows "pagination net 0 [] [] =
           (Inr (filter is_oscars_market ms1 @ filter is_oscars_market ms2), [0, 100])"
proof -
  have ne1: "ms1 \<noteq> []" and ne2: "ms2 \<noteq> []" using assms by auto
  have p1: "fetch_page (net 0) [] = Continue (filter is_oscars_market ms1)"
    using assms ne1 by (simp add: fetch_page_def limit_def)
  have p2: "fetch_page (net 100) (filter is_oscars_market ms1) =
              Leave (Inr (filter is_oscars_market ms1 @ filter is_oscars_market ms2))"
    using assms ne2 by (simp add: fetch_page_def limit_def)
  have "pagination net 0 [] [] = pagination net 100 (filter is_oscars_market ms1) [0]"
    using p1 by (subst pagination.simps) (simp add: limit_def)
  also have "\<dots> = (Inr (filter is_oscars_market ms1 @ filter is_oscars_market ms2), [0, 100])"
    using p2 by (subst pagination.simps) simp
  finally show ?thesis .
qed

lemma short_page_is_last:
  assumes "offset' \<in> set (snd (pagination net offset allMarkets requested))"
    and "offset' \<notin> set requested"
    and "net offset' = Response True (Json (Markets ms))" and "length ms < limit"
  shows "last (snd (pagination net offset allMarkets requested)) = offset'"
  using assms
proof (induction net offset allMarkets requested rule: pagination.induct)
  case (1 net offset allMarkets requested)
  show ?case
  proof (cases "fetch_page (net offset) allMarkets")
    case (Leave res)
    then have "snd (pagination net offset allMarkets requested) = requested @ [offset]"
      by (simp add: pagination.simps)
    with "1.prems" show ?thesis by auto
  next
    case (Continue gathered)
    have neq: "offset' \<noteq> offset"
    proof
      assume "offset' = offset"
      with "1.prems"(3,4) have "fetch_page (net offset) allMarkets \<noteq> Continue gathered"
        by (simp add: fetch_page_def Let_def)
      with Continue show False by simp
    qed
    show ?thesis
    proof (cases "offset + limit \<ge> 500")
      case True
      with Continue have "snd (pagination net offset allMarkets requested) = requested @ [offset]"
        by (simp add: pagination.simps)
      with "1.prems" neq show ?thesis by auto
    next
      case False
      have step: "pagination net offset allMarkets requested =
              pagination net (offset + limit) gathered (requested @ [offset])"
        using Continue False by (subst pagination.simps) simp
      from "1.prems"(1) have "offset' \<in> set (snd (pagination net (offset + limit) gathered (requested @ [offset])))"
        by (simp add: step)
      moreover from "1.prems"(2) neq have "offset' \<notin> set (requested @ [offset])" by simp
      ultimately have "last (snd (pagination net (offset + limit) gathered (requested @ [offset]))) = offset'"
        using "1.IH" [OF Continue False] "1.prems"(3,4) by blast
      then show ?thesis by (simp add: step)
    qed
  qed
qed


lemma first_request_is_made:
  "offset \<in> set (snd (pagination net offset allMarkets requested))"
proof -
  from pagination_requests [of offset net allMarkets requested] obtain k where
    k: "1 \<le> k" "snd (pagination net offset allMarkets requested) =
         requested @ map (\<lambda>i. offset + i * 100) [0..<k]"
    by blast
  from k(1) have "[0..<k] = 0 # [1..<k]" by (simp add: upt_conv_Cons)
  with k(2) show ?thesis by simp
qed

lemma full_page_continues:
  assumes "r = Response True (Json (Markets ms))" and "limit \<le> length ms"
  shows "fetch_page r allMarkets = Continue (allMarkets @ filter is_oscars_market ms)"
proof -
  from assms(2) have "ms \<noteq> []" by (auto simp: limit_def)
  with assms show ?thesis by (simp add: fetch_page_def Let_def)
qed

lemma full_page_is_followed:
  assumes "offset' \<in> set (snd (pagination net offset allMarkets requested))"
    and "offset' \<notin> set requested"
    and "net offset' = Response True (Json (Markets ms))" and "limit \<le> length ms"
    and "offset' + limit < 500"
  shows "offset' + limit \<in> set (snd (pagination net offset allMarkets requested))"
  using assms
proof (induction net offset allMarkets requested rule: pagination.induct)
  case (1 net offset allMarkets requested)
  show ?case
  proof (cases "offset' = offset")
    case True
    let ?gathered = "allMarkets @ filter is_oscars_market ms"
    from full_page_continues [OF "1.prems"(3,4)] True
    have page: "fetch_page (net offset) allMarkets = Continue ?gathered" by simp
    from "1.prems"(5) True have more: "\<not> offset + limit \<ge> 500" by simp
    have step: "pagination net offset allMarkets requested =
              pagination net (offset + limit) ?gathered (requested @ [offset])"
      using page more by (subst pagination.simps) simp
    from first_request_is_made [of "offset + limit" net ?gathered "requested @ [offset]"]
    show ?thesis by (simp add: step True)
  next
    case False
    show ?thesis
    proof (cases "fetch_page (net offset) allMarkets")
      case (Leave res)
      then have "snd (pagination net offset allMarkets requested) = requested @ [offset]"
        by (simp add: pagination.simps)
      with "1.prems"(1,2) False show ?thesis by simp
    next
      case (Continue gathered)
      show ?thesis
      proof (cases "offset + limit \<ge> 500")
        case True
        with Continue have "snd (pagination net offset allMarkets requested) = requested @ [offset]"
          by (simp add: pagination.simps)
        with "1.prems"(1,2) False show ?thesis by simp
      next
        case more: False
        have step: "pagination net offset allMarkets requested =
              pagination net (offset + limit) gathered (requested @ [offset])"
          using Continue more by (subst pagination.simps) simp
        from "1.prems"(1) have "offset' \<in> set (snd (pagination net (offset + limit) gathered (requested @ [offset])))"
          by (simp add: step)
        moreover from "1.prems"(2) False have "offset' \<notin> set (requested @ [offset])" by simp
        ultimately have "offset' + limit \<in>
            set (snd (pagination net (offset + limit) gathered (requested @ [offset])))"
          using "1.IH" [OF Continue more] "1.prems"(3,4,5) by blast
        then show ?thesis by (simp add: step)
      qed
    qed
  qed
qed

lemma all_pages_full:
  assumes "\<forall>offset<500. \<exists>ms. net offset = Response True (Json (Markets ms)) \<and> 100 \<le> length ms"
  shows "listing_requests net = [0, 100, 200, 300, 400]"
proof -
  from listing_requests_prefix [of net] obtain k where
    k: "1 \<le> k" "k \<le> 5" "listing_requests net = map (\<lambda>i. i * 100) [0..<k]"
    by blast
  have next_one: "offset + 100 \<in> set (listing_requests net)"
    if "offset \<in> set (listing_requests net)" "offset < 400" for offset
  proof -
    from that(2) have "offset < 500" by simp
    with assms obtain ms where
      "net offset = Response True (Json (Markets ms))" "100 \<le> length ms" by blast
    with full_page_is_followed [of offset net 0 "[]" "[]" ms] that show ?thesis
      by (simp add: listing_requests_def limit_def)
  qed
  have "0 \<in> set (listing_requests net)"
    using first_request_is_made [of 0 net "[]" "[]"] by (simp add: listing_requests_def)
  then have "100 \<in> set (listing_requests net)" using next_one [of 0] by simp
  then have "200 \<in> set (listing_requests net)" using next_one [of 100] by simp
  then have "300 \<in> set (listing_requests net)" using next_one [of 200] by simp
  then have "400 \<in> set (listing_requests net)" using next_one [of 300] by simp
  then obtain i where "i < k" "i * 100 = 400" by (auto simp: k(3))
  then have "5 \<le> k" by simp
  with k(2) have "k = 5" by simp
  then have "[0..<k] = [0, 1, 2, 3, 4]" by (simp add: upt_rec)
  with k(3) show ?thesis by simp
qed

text \<open>
  Claim C6. The listing pages are requested one after the other at the offsets 0, 100,
  200, ..., at most five of them (the loop is a total function: it ends on every
  network). A requested page with fewer than 100 markets is the last one requested; a
  requested page with 100 markets or more, at an offset below 400, is followed by the
  request of the next page; so when every page is full exactly the five offsets from 0
  to 400 are requested. When the first page has exactly 100 markets and the second has
  40, exactly the two offsets 0 and 100 are requested and the markets of both pages are
  returned.
\<close>

theorem fetchAllOscarsMarkets_pagination:
  "(\<exists>k. 1 \<le> k \<and> k \<le> 5 \<and> listing_requests net = map (\<lambda>i. i * 100) [0..<k])
   \<and> length (listing_requests net) \<le> 5
   \<and> (net 0 = Response True (Json (Markets ms1)) \<and> length ms1 = 100 \<and>
        net 100 = Response True (Json (Markets ms2)) \<and> length ms2 = 40 \<longrightarrow>
          listing_requests net = [0, 100] \<and>
          fetchAllOscarsMarkets net = filter is_oscars_market ms1 @ filter is_oscars_market ms2)
   \<and> (offset \<in> set (listing_requests net) \<and>
        net offset = Response True (Json (Markets ms)) \<and> length ms < 100 \<longrightarrow>
          last (listing_requests net) = offset)
   \<and> (offset \<in> set (listing_requests net) \<and> offset < 400 \<and>
        net offset = Response True (Json (Markets ms)) \<and> 100 \<le> length ms \<longrightarrow>
          offset + 100 \<in> set (listing_requests net))
   \<and> ((\<forall>offset<500. \<exists>ms. net offset = Response True (Json (Markets ms)) \<and> 100 \<le> length ms) \<longrightarrow>
          listing_requests net = [0, 100, 200, 300, 400])"
proof -
  from listing_requests_prefix [of net] obtain k where
    k: "1 \<le> k" "k \<le> 5" "listing_requests net = map (\<lambda>i. i * 100) [0..<k]"
    by blast
  then have len: "length (listing_requests net) \<le> 5" by simp
  have two: "listing_requests net = [0, 100] \<and>
          fetchAllOscarsMarkets net = filter is_oscars_market ms1 @ filter is_oscars_market ms2"
    if "net 0 = Response True (Json (Markets ms1))" "length ms1 = 100"
       "net 100 = Response True (Json (Markets ms2))" "length ms2 = 40"
    using two_pages [OF that] by (simp add: listing_requests_def fetchAllOscarsMarkets_def)
  have short: "last (listing_requests net) = offset"
    if "offset \<in> set (listing_requests net)"
       "net offset = Response True (Json (Markets ms))" "length ms < 100"
    using short_page_is_last [of offset net 0 "[]" "[]" ms] that
    by (simp add: listing_requests_def limit_def)
  have full: "offset + 100 \<in> set (listing_requests net)"
    if "offset \<in> set (listing_requests net)" "offset < 400"
       "net offset = Response True (Json (Markets ms))" "100 \<le> length ms"
    using full_page_is_followed [of offset net 0 "[]" "[]" ms] that
    by (simp add: listing_requests_def limit_def)
  note all_pages_full [of net]
  with k len two short full show ?thesis by blast
qed

theorem fetchAllOscarsMarkets_pagination_witness:
  "listing_requests
     (\<lambda>offset. if offset = 0 then Response True (Json (Markets (replicate 100 sample_market)))
           else if offset = 100 then Response True (Json (Markets (replicate 40 sample_market)))
           else NetworkFailure) = [0, 100]
   \<and> last (listing_requests
     (\<lambda>offset. if offset = 0 then Response True (Json (Markets (replicate 100 sample_market)))
           else if offset = 100 then Response True (Json (Markets (replicate 40 sample_market)))
           else NetworkFailure)) = 100
   \<and> listing_requests (\<lambda>offset. Response True (Json (Markets (replicate 100 sample_market))))
       = [0, 100, 200, 300, 400]"
proof -
  have short: "listing_requests
     (\<lambda>offset. if offset = 0 then Response True (Json (Markets (replicate 100 sample_market)))
           else if offset = 100 then Response True (Json (Markets (replicate 40 sample_market)))
           else NetworkFailure) = [0, 100]"
    using fetchAllOscarsMarkets_pagination [of
       "\<lambda>offset. if offset = 0 then Response True (Json (Markets (replicate 100 sample_market)))
           else if offset = 100 then Response True (Json (Markets (replicate 40 sample_market)))
           else NetworkFailure" "replicate 100 sample_market" "replicate 40 sample_market" 100
       "replicate 40 sample_market"]
    by simp
  have "\<forall>offset<500. \<exists>ms. Response True (Json (Markets (replicate 100 sample_market))) =
          Response True (Json (Markets ms)) \<and> 100 \<le> length ms"
    by (intro allI impI exI [of _ "replicate 100 sample_market"]) simp
  with fetchAllOscarsMarkets_pagination [of
       "\<lambda>offset. Response True (Json (Markets (replicate 100 sample_market)))"]
  have full: "listing_requests (\<lambda>offset. Response True (Json (Markets (replicate 100 sample_market))))
       = [0, 100, 200, 300, 400]"
    by blast
  from short full show ?thesis by simp
qed

section \<open>Malformed markets\<close>

lemma collect_quotes_append:
  "collect_quotes acc (ms @ ms') = collect_quotes (collect_quotes acc ms) ms'"
  by (induction acc ms rule: collect_quotes.induct) (auto split: sum.splits option.splits)

lemma collect_quotes_skips_raising:
  assumes "market_quote bad = Inl e"
  shows "collect_quotes [] (ms @ bad # ms') = collect_quotes [] (ms @ ms')"
  using assms by (simp add: collect_quotes_append)

lemma collect_category_append:
  "collect_category acc (ms @ ms') = collect_category (collect_category acc ms) ms'"
  by (induction acc ms rule: collect_category.induct) (auto split: sum.splits option.splits)

lemma collect_category_skips_raising:
  assumes "category_quote bad = Inl e"
  shows "collect_category [] (ms @ bad # ms') = collect_category [] (ms @ ms')"
  using assms by (simp add: collect_category_append)

text \<open>
  Claim C7 asks that a malformed market is skipped alone, in every Polymarket adapter.
  The loops of \<open>fetchPolymarketData\<close> (update-polymarket.js) and of
  \<open>extractNominees\<close> catch per market: a market whose body raises changes nothing
  for the others (lemmas above). \<open>fetchCategory\<close> parses inside \<open>map\<close> with no
  \<open>catch\<close> per market: one market with unparseable \<open>outcomePrices\<close> makes it
  return \<open>null\<close> for the category, where the two others return the quote of the
  well-formed market of the same batch.
\<close>

theorem fetchCategory_drops_batch_on_malformed_market:
  "fetchCategory (events_with [malformed_market, oppenheimer_market])
     ''oscars-2026-best-picture-winner'' = None
   \<and> fetchPolymarketData (events_with [malformed_market, oppenheimer_market])
     ''oscars-2026-best-picture-winner'' = [\<lparr>name = ''Oppenheimer'', odds = ''-456''\<rparr>]
   \<and> extractNominees [malformed_market, oppenheimer_market] ''Oscars 2026: Best Picture Winner''
     = [\<lparr>name = ''Oppenheimer'', odds = ''-456'', probability = to_double (82 / 100)\<rparr>]"
  by code_simp

section \<open>The Kalshi converter against the probability converter\<close>

text \<open>
  Claim C8. For an integer price \<open>c\<close> in cents from 0 to 100,
  \<open>kalshiPriceToAmericanOdds(c)\<close> is \<open>probToAmericanOdds(c / 100)\<close>, the division
  being that of doubles; and the Kalshi adapter hands the \<open>yes_price\<close> of a market
  it accepts to that converter unchanged, so the odds of its quote are those of the
  probability \<open>c / 100\<close>.
\<close>

theorem kalshiPriceToAmericanOdds_is_probToAmericanOdds:
  assumes "0 \<le> c" and "c \<le> 100"
  shows "kalshiPriceToAmericanOdds (Fin (of_int c)) =
           probToAmericanOdds (js_div (Fin (of_int c)) (Fin 100))
         \<and> js_div (Fin (of_int c)) (Fin 100) = to_double (of_int c / 100)
         \<and> (kalshi_name m \<noteq> [] \<and> yes_price m = Some (Fin (of_int c)) \<longrightarrow>
              kalshi_quote m =
                Some \<lparr>name = trim (kalshi_name m),
                      odds = probToAmericanOdds (to_double (of_int c / 100))\<rparr>)"
  by (simp add: kalshiPriceToAmericanOdds_def probToAmericanOdds_def parseFloat_def
      kalshi_quote_def)

theorem kalshiPriceToAmericanOdds_is_probToAmericanOdds_witness:
  "(0::int) \<le> 25 \<and> (25::int) \<le> 100
   \<and> kalshiPriceToAmericanOdds (Fin (of_int 25)) =
       probToAmericanOdds (js_div (Fin (of_int 25)) (Fin 100))
   \<and> kalshi_quote \<lparr>title = Some ''Conclave'', subtitle = None, yes_price = Some (Fin (of_int 25))\<rparr> =
       Some \<lparr>name = ''Conclave'', odds = probToAmericanOdds (to_double (of_int 25 / 100))\<rparr>"
proof -
  have a: "(0::int) \<le> 25" by simp
  have b: "(25::int) \<le> 100" by simp
  have n: "kalshi_name \<lparr>title = Some ''Conclave'', subtitle = None, yes_price = Some (Fin (of_int 25))\<rparr>
             = ''Conclave''"
    by (simp add: kalshi_name_def)
  have t: "trim ''Conclave'' = ''Conclave''"
    by (simp add: trim_def is_space_def)
  from kalshiPriceToAmericanOdds_is_probToAmericanOdds [OF a b,
      of "\<lparr>title = Some ''Conclave'', subtitle = None, yes_price = Some (Fin (of_int 25))\<rparr>"]
  show ?thesis using n t by simp
qed

section \<open>Degenerate probabilities\<close>

lemma probToAmericanOdds_division:
  "probToAmericanOdds x =
     (if js_ge (parseFloat x) (Fin (1 / 2))
      then number_to_string (Math_round
             (js_div (js_neg (js_mul (parseFloat x) (Fin 100))) (odds_denominator x)))
      else ''+'' @ number_to_string (Math_round
             (js_div (js_mul (js_sub (Fin 1) (parseFloat x)) (Fin 100)) (odds_denominator x))))"
  by (simp add: probToAmericanOdds_def odds_denominator_def Let_def)

lemma denominator_above_one:
  assumes "1 + 1 / 2 ^ 52 \<le> p"
  shows "odds_denominator (Fin p) \<noteq> Fin 0"
proof -
  have half: "1 / 2 \<le> p" using assms by (rule order_trans [rotated]) simp
  have ulp: "(1 / 2 ^ 52 :: rat) = of_int 1 * 2 powi (- 52)"
    by (simp add: power_int_minus field_simps)
  have gap: "1 / 2 ^ 52 \<le> p - 1" using assms by simp
  have "odds_denominator (Fin p) = to_double (- (p - 1))"
    using half by (simp add: odds_denominator_def parseFloat_def)
  also have "\<dots> = js_neg (to_double (p - 1))" by (rule to_double_minus)
  finally have eq: "odds_denominator (Fin p) = js_neg (to_double (p - 1))" .
  from to_double_lower [OF ulp _ _ _ gap]
  have "to_double (p - 1) = PosInf \<or> (\<exists>y. to_double (p - 1) = Fin y \<and> 1 / 2 ^ 52 \<le> y)"
    by simp
  then show ?thesis
  proof
    assume "to_double (p - 1) = PosInf"
    then show ?thesis by (simp add: eq)
  next
    assume "\<exists>y. to_double (p - 1) = Fin y \<and> 1 / 2 ^ 52 \<le> y"
    then obtain y where y: "to_double (p - 1) = Fin y" "1 / 2 ^ 52 \<le> y" by blast
    have "0 < y" using y(2) by (rule less_le_trans [rotated]) simp
    then show ?thesis by (simp add: eq y(1))
  qed
qed

lemma degenerate_examples:
  "probToAmericanOdds (Fin 0) = ''+Infinity''"
  "probToAmericanOdds (Fin 1) = ''-Infinity''"
  "probToAmericanOdds (Fin 2) = ''200''"
  "probToAmericanOdds (Fin (- 1 / 2)) = ''+-300''"
  "kalshiPriceToAmericanOdds (Fin 0) = ''+Infinity''"
  "kalshiPriceToAmericanOdds (Fin 100) = ''-Infinity''"
  "js_div (Fin 0) (Fin 100) = Fin 0"
  "js_div (Fin 100) (Fin 100) = Fin 1"
  "odds_denominator (Fin 0) = Fin 0"
  "odds_denominator (Fin 1) = Fin 0"
  "odds_denominator (Fin 2) = Fin (- 1)"
  "odds_denominator (Fin (- 1 / 2)) = Fin (- 1 / 2)"
  by code_simp+

text \<open>
  Claim C9 says that for every degenerate input (a probability at most 0 or at least 1)
  the division of the converter has a zero denominator and an infinite result. At the
  inputs 2 and -0.5 the denominator is not zero and the result is finite: the text
  \<open>200\<close>, without a sign, and the text \<open>+-300\<close>.
\<close>

theorem degenerate_probability_counterexample:
  "(1::rat) \<le> 2 \<and> odds_denominator (Fin 2) = Fin (- 1) \<and> probToAmericanOdds (Fin 2) = ''200''
   \<and> (- 1 / 2 :: rat) \<le> 0 \<and> odds_denominator (Fin (- 1 / 2)) = Fin (- 1 / 2)
   \<and> probToAmericanOdds (Fin (- 1 / 2)) = ''+-300''"
  using degenerate_examples by simp

text \<open>
  Claim C9 as amended. At the degenerate inputs 0 and 1 the division of the converter
  has a zero denominator, and the converter returns \<open>+Infinity\<close> and
  \<open>-Infinity\<close>. At the other degenerate inputs the denominator is not zero: below 0
  it is the input itself, and from \<open>1 + 2^(-52)\<close> on, the least double above 1, it
  is a negative number or the negative infinity. No branch rejects or saturates an
  input: for every input the converter returns the text of the rounded quotient of one
  of its two branches. The field checks of the Kalshi adapter accept a \<open>yes_price\<close>
  of 0 and of 100, which are the probabilities 0 and 1, and the quote then carries the
  odds \<open>+Infinity\<close> or \<open>-Infinity\<close>.
\<close>

theorem degenerate_probabilities:
  "odds_denominator (Fin 0) = Fin 0
   \<and> odds_denominator (Fin 1) = Fin 0
   \<and> probToAmericanOdds (Fin 0) = ''+Infinity''
   \<and> probToAmericanOdds (Fin 1) = ''-Infinity''
   \<and> (p < 0 \<longrightarrow> odds_denominator (Fin p) = Fin p)
   \<and> (1 + 1 / 2 ^ 52 \<le> p \<longrightarrow> odds_denominator (Fin p) \<noteq> Fin 0)
   \<and> probToAmericanOdds x =
       (if js_ge (parseFloat x) (Fin (1 / 2))
        then number_to_string (Math_round
               (js_div (js_neg (js_mul (parseFloat x) (Fin 100))) (odds_denominator x)))
        else ''+'' @ number_to_string (Math_round
               (js_div (js_mul (js_sub (Fin 1) (parseFloat x)) (Fin 100)) (odds_denominator x))))
   \<and> js_div (Fin 0) (Fin 100) = Fin 0
   \<and> js_div (Fin 100) (Fin 100) = Fin 1
   \<and> (kalshi_name m \<noteq> [] \<and> yes_price m = Some (Fin 0) \<longrightarrow>
        kalshi_quote m = Some \<lparr>name = trim (kalshi_name m), odds = ''+Infinity''\<rparr>)
   \<and> (kalshi_name m \<noteq> [] \<and> yes_price m = Some (Fin 100) \<longrightarrow>
        kalshi_quote m = Some \<lparr>name = trim (kalshi_name m), odds = ''-Infinity''\<rparr>)"
proof -
  have below: "odds_denominator (Fin p) = Fin p" if "p < 0"
    using that by (simp add: odds_denominator_def parseFloat_def)
  have q0: "kalshi_quote m = Some \<lparr>name = trim (kalshi_name m), odds = ''+Infinity''\<rparr>"
    if "kalshi_name m \<noteq> [] \<and> yes_price m = Some (Fin 0)"
    using that degenerate_examples(5) by (simp add: kalshi_quote_def)
  have q100: "kalshi_quote m = Some \<lparr>name = trim (kalshi_name m), odds = ''-Infinity''\<rparr>"
    if "kalshi_name m \<noteq> [] \<and> yes_price m = Some (Fin 100)"
    using that degenerate_examples(6) by (simp add: kalshi_quote_def)
  from degenerate_examples(9,10,1,2) below denominator_above_one [of p]
    probToAmericanOdds_division [of x] degenerate_examples(7,8) q0 q100
  show ?thesis by (intro conjI impI) blast+
qed

theorem degenerate_probabilities_witness:
  "(- 1 / 2 :: rat) < 0 \<and> odds_denominator (Fin (- 1 / 2)) = Fin (- 1 / 2)
   \<and> (1 + 1 / 2 ^ 52 :: rat) \<le> 2 \<and> odds_denominator (Fin 2) \<noteq> Fin 0
   \<and> kalshi_quote \<lparr>title = Some ''Conclave'', subtitle = None, yes_price = Some (Fin 0)\<rparr> =
       Some \<lparr>name = ''Conclave'', odds = ''+Infinity''\<rparr>"
proof -
  have n: "kalshi_name \<lparr>title = Some ''Conclave'', subtitle = None, yes_price = Some (Fin 0)\<rparr>
             = ''Conclave''"
    by (simp add: kalshi_name_def)
  have t: "trim ''Conclave'' = ''Conclave''"
    by (simp add: trim_def is_space_def)
  have a: "(- 1 / 2 :: rat) < 0" by simp
  have b: "(1 + 1 / 2 ^ 52 :: rat) \<le> 2" by simp
  note w1 = degenerate_probabilities [where p = "- 1 / 2"
      and m = "\<lparr>title = Some ''Conclave'', subtitle = None, yes_price = Some (Fin 0)\<rparr>"]
  note w2 = degenerate_probabilities [where p = 2]
  have c1: "odds_denominator (Fin (- 1 / 2)) = Fin (- 1 / 2)"
    using w1 [THEN conjunct2, THEN conjunct2, THEN conjunct2, THEN conjunct2, THEN conjunct1] a
    by simp
  have c2: "odds_denominator (Fin 2) \<noteq> Fin 0"
    using w2 [THEN conjunct2, THEN conjunct2, THEN conjunct2, THEN conjunct2, THEN conjunct2,
        THEN conjunct1] b
    by simp
  have c3: "kalshi_quote \<lparr>title = Some ''Conclave'', subtitle = None, yes_price = Some (Fin 0)\<rparr> =
       Some \<lparr>name = trim ''Conclave'', odds = ''+Infinity''\<rparr>"
    using w1 [THEN conjunct2, THEN conjunct2, THEN conjunct2, THEN conjunct2, THEN conjunct2,
        THEN conjunct2, THEN conjunct2, THEN conjunct2, THEN conjunct2, THEN conjunct1] n
    by simp
  from a b c1 c2 c3 t show ?thesis by simp
qed

section \<open>A category without any match\<close>

lemma gather_updates_unmatched:
  assumes "\<forall>n \<in> set ns. \<forall>q \<in> set quotes. \<not> matches n q"
  shows "gather_updates source matches quotes today ns = []"
proof -
  from assms have "\<forall>n \<in> set ns. find (matches n) quotes = None"
    by (simp add: find_None_iff)
  then show ?thesis by (simp add: gather_updates_empty_iff)
qed

lemma patch_category_unmatched:
  assumes "stored fb (nominees_path firebasePath) = Some ns"
    and "\<forall>n \<in> set ns. \<forall>q \<in> set quotes. \<not> matches n q"
  shows "patch_category source matches quotes firebasePath today fb = fb"
  using assms(1) gather_updates_unmatched [OF assms(2)]
  by (simp add: patch_category_def)

lemma updateCategory_bulk_unmatched:
  assumes "stored fb (nominees_path path) = Some ns" and "ns \<noteq> []"
    and "extractNominees allMarkets search \<noteq> []"
    and "\<forall>n \<in> set ns. \<forall>p \<in> set (extractNominees allMarkets search). \<not> bulk_match n p"
  shows "updateCategory_bulk search path allMarkets today fb = ref_set (nominees_path path) ns fb"
proof -
  from assms(4) have "\<forall>n \<in> set ns. find (bulk_match n) (extractNominees allMarkets search) = None"
    by (simp add: find_None_iff)
  then have "map (updated_nominee ''polymarket'' bulk_match (extractNominees allMarkets search) today) ns = ns"
    by (rule map_updated_nominee_unmatched)
  moreover obtain n ns' where "ns = n # ns'" using assms(2) by (cases ns) auto
  ultimately show ?thesis using assms(1,3)
    by (auto simp: updateCategory_bulk_def Let_def)
qed

text \<open>
  Claim C10. A nominee list that is not empty is stored at the path, the adapter has
  returned quotes, and no stored nominee matches any quote. Then the patching scripts
  (update-polymarket.js, update-kalshi-bafta.js) gather an empty updates object and
  leave the database as it was, with no write logged; the replacing script (part_001)
  issues one \<open>set\<close> whose value is the list it has read, so the stored contents are
  the same as before.
\<close>

theorem unmatched_category_leaves_store:
  fixes fb :: "'a firebase"
  assumes "stored fb (nominees_path firebasePath) = Some ns" and "ns \<noteq> []"
  shows
   "(fetchPolymarketData net slug \<noteq> [] \<and>
     (\<forall>n \<in> set ns. \<forall>p \<in> set (fetchPolymarketData net slug). \<not> polymarket_match n p) \<longrightarrow>
       gather_updates ''polymarket'' polymarket_match (fetchPolymarketData net slug) today ns = [] \<and>
       updateCategory net slug firebasePath today fb = fb)
    \<and> (fetchKalshiData knet seriesTicker \<noteq> [] \<and>
     (\<forall>n \<in> set ns. \<forall>k \<in> set (fetchKalshiData knet seriesTicker). \<not> kalshi_match n k) \<longrightarrow>
       gather_updates ''kalshi'' kalshi_match (fetchKalshiData knet seriesTicker) today ns = [] \<and>
       updateCategory_kalshi knet seriesTicker firebasePath today fb = fb)
    \<and> (extractNominees allMarkets search \<noteq> [] \<and>
     (\<forall>n \<in> set ns. \<forall>p \<in> set (extractNominees allMarkets search). \<not> bulk_match n p) \<longrightarrow>
       stored (updateCategory_bulk search firebasePath allMarkets today fb) = stored fb \<and>
       written (updateCategory_bulk search firebasePath allMarkets today fb) =
         written fb @ [SetAt (nominees_path firebasePath) ns])"
proof (intro conjI impI)
  assume "fetchPolymarketData net slug \<noteq> [] \<and>
     (\<forall>n \<in> set ns. \<forall>p \<in> set (fetchPolymarketData net slug). \<not> polymarket_match n p)"
  then have u: "\<forall>n \<in> set ns. \<forall>p \<in> set (fetchPolymarketData net slug). \<not> polymarket_match n p" ..
  from gather_updates_unmatched [OF u]
  show "gather_updates ''polymarket'' polymarket_match (fetchPolymarketData net slug) today ns = []" .
  from patch_category_unmatched [OF assms(1) u]
  show "updateCategory net slug firebasePath today fb = fb"
    by (simp add: updateCategory_def)
next
  assume "fetchKalshiData knet seriesTicker \<noteq> [] \<and>
     (\<forall>n \<in> set ns. \<forall>k \<in> set (fetchKalshiData knet seriesTicker). \<not> kalshi_match n k)"
  then have u: "\<forall>n \<in> set ns. \<forall>k \<in> set (fetchKalshiData knet seriesTicker). \<not> kalshi_match n k" ..
  from gather_updates_unmatched [OF u]
  show "gather_updates ''kalshi'' kalshi_match (fetchKalshiData knet seriesTicker) today ns = []" .
  from patch_category_unmatched [OF assms(1) u]
  show "updateCategory_kalshi knet seriesTicker firebasePath today fb = fb"
    by (simp add: updateCategory_kalshi_def)
next
  assume h: "extractNominees allMarkets search \<noteq> [] \<and>
     (\<forall>n \<in> set ns. \<forall>p \<in> set (extractNominees allMarkets search). \<not> bulk_match n p)"
  then have eq: "updateCategory_bulk search firebasePath allMarkets today fb =
      ref_set (nominees_path firebasePath) ns fb"
    using updateCategory_bulk_unmatched [OF assms] by blast
  show "stored (updateCategory_bulk search firebasePath allMarkets today fb) = stored fb"
    using assms(1) by (simp add: eq ref_set_def fun_upd_idem)
  show "written (updateCategory_bulk search firebasePath allMarkets today fb) =
         written fb @ [SetAt (nominees_path firebasePath) ns]"
    by (simp add: eq ref_set_def)
qed

theorem unmatched_category_leaves_store_witness:
  "stored sample_store (nominees_path ''oscars/best-picture'') = Some [sample_nominee]
   \<and> fetchPolymarketData (events_with [sample_market]) ''oscars-2026-best-picture-winner'' \<noteq> []
   \<and> updateCategory (events_with [sample_market]) ''oscars-2026-best-picture-winner''
        ''oscars/best-picture'' ''2026-03-15'' sample_store = sample_store
   \<and> fetchKalshiData (kalshi_with [sinners_kalshi]) ''KXBAFTAFILM'' \<noteq> []
   \<and> updateCategory_kalshi (kalshi_with [sinners_kalshi]) ''KXBAFTAFILM''
        ''oscars/best-picture'' ''2026-03-15'' sample_store = sample_store
   \<and> extractNominees [sample_market] ''Oscars 2026: Best Picture Winner'' \<noteq> []
   \<and> stored (updateCategory_bulk ''Oscars 2026: Best Picture Winner'' ''oscars/best-picture''
        [sample_market] ''2026-03-15'' sample_store) = stored sample_store
   \<and> written (updateCategory_bulk ''Oscars 2026: Best Picture Winner'' ''oscars/best-picture''
        [sample_market] ''2026-03-15'' sample_store) =
       [SetAt (nominees_path ''oscars/best-picture'') [sample_nominee]]"
proof -
  have st: "stored sample_store (nominees_path ''oscars/best-picture'') = Some [sample_nominee]"
    by (simp add: sample_store_def)
  have ne: "[sample_nominee] \<noteq> []" by simp
  have w: "written sample_store = []" by (simp add: sample_store_def)
  have q1: "fetchPolymarketData (events_with [sample_market]) ''oscars-2026-best-picture-winner''
             = [\<lparr>name = ''Sinners'', odds = ''+300''\<rparr>]"
    by code_simp
  have n1: "\<not> polymarket_match sample_nominee \<lparr>name = ''Sinners'', odds = ''+300''\<rparr>"
    by code_simp
  have q2: "fetchKalshiData (kalshi_with [sinners_kalshi]) ''KXBAFTAFILM''
             = [\<lparr>name = ''Sinners'', odds = ''+300''\<rparr>]"
    by code_simp
  have n2: "\<not> kalshi_match sample_nominee \<lparr>name = ''Sinners'', odds = ''+300''\<rparr>"
    by code_simp
  have q3: "extractNominees [sample_market] ''Oscars 2026: Best Picture Winner''
             = [\<lparr>name = ''Sinners'', odds = ''+300'', probability = Fin (1 / 4)\<rparr>]"
    by code_simp
  have n3: "\<not> bulk_match sample_nominee \<lparr>name = ''Sinners'', odds = ''+300'', probability = Fin (1 / 4)\<rparr>"
    by code_simp
  from unmatched_category_leaves_store [OF st ne,
      of "events_with [sample_market]" "''oscars-2026-best-picture-winner''" "''2026-03-15''"
         "kalshi_with [sinners_kalshi]" "''KXBAFTAFILM''"
         "[sample_market]" "''Oscars 2026: Best Picture Winner''"]
  show ?thesis
    by (simp add: st q1 n1 q2 n2 q3 n3 w)
qed

end
